theory Spec2Isabelle
  imports Complex_Main "HOL-Library.Product_Lexorder" "HOL-Library.AList"
begin

section \<open>Zariski-Van Kampen braid monodromy: a shallow embedding\<close>

text \<open>
  The development follows \<^verbatim>\<open>src/sage/schemes/curves/zariski_vankampen.py\<close>.
  Exceptions of the Python code are values of \<open>error + 'a\<close>; a loop without an
  iteration bound takes a fuel argument and returns \<open>None\<close> when the fuel is spent, so
  that "the call returns" is the statement "some fuel gives \<open>Some\<close>".

  Exact algebraic numbers (\<^verbatim>\<open>QQbar\<close>) are complex numbers. The collaborators the
  source imports (root finding, floating-point rounding, interval Newton test, Voronoi
  diagrams, certified continuation, Eulerian circuits, shortest paths) are parameters of
  the functions that call them.
\<close>

subsection \<open>Errors and results\<close>

datatype error =
    ValueError string
  | IndexError
  | KeyError
  | ZeroDivisionError
  | ArithmeticError
  | NameError
  | PariError

type_synonym 'a res = "(error + 'a) option"

subsection \<open>Complex intervals\<close>

text \<open>
  An element of \<^verbatim>\<open>ComplexIntervalField\<close> is a rectangle: an interval of real
  parts and an interval of imaginary parts.
\<close>

record box =
  re_lo :: real
  re_hi :: real
  im_lo :: real
  im_hi :: real

text \<open>\<^verbatim>\<open>a.overlaps(b)\<close>: the two rectangles have a point in common.\<close>

definition overlaps :: "box \<Rightarrow> box \<Rightarrow> bool" where
  "overlaps a b =
     (re_lo a \<le> re_hi b \<and> re_lo b \<le> re_hi a \<and> im_lo a \<le> im_hi b \<and> im_lo b \<le> im_hi a)"

text \<open>\<^verbatim>\<open>z in a\<close> for an exact number \<open>z\<close>.\<close>

definition contains :: "box \<Rightarrow> complex \<Rightarrow> bool" where
  "contains a z = (re_lo a \<le> Re z \<and> Re z \<le> re_hi a \<and> im_lo a \<le> Im z \<and> Im z \<le> im_hi a)"

text \<open>
  \<^verbatim>\<open>r + IF(diam)*IF((-1, 1), (-1, 1))\<close>: the square of half-width \<open>diam\<close> centred
  at \<open>r\<close>. The outward rounding of the interval field is not represented.
\<close>

definition envelop_at :: "complex \<Rightarrow> real \<Rightarrow> box" where
  "envelop_at r diam =
     \<lparr>re_lo = Re r - diam, re_hi = Re r + diam, im_lo = Im r - diam, im_hi = Im r + diam\<rparr>"

subsection \<open>Polynomials\<close>

text \<open>
  A bivariate polynomial is the list of its monomials, \<open>((i, j), c)\<close> standing for
  \<open>c * x^i * y^j\<close> with \<open>c \<noteq> 0\<close>, as Sage stores it. A univariate polynomial in \<open>y\<close>
  is its coefficient list, lowest degree first.
\<close>

type_synonym bipoly = "((nat \<times> nat) \<times> complex) list"
type_synonym unipoly = "complex list"

definition max_nat_list :: "nat list \<Rightarrow> nat" where
  "max_nat_list ns = fold max ns 0"

text \<open>\<^verbatim>\<open>f.degree()\<close> of a multivariate polynomial is its total degree.\<close>

definition degree :: "bipoly \<Rightarrow> nat" where
  "degree f = max_nat_list (map (\<lambda>((i, j), c). i + j) f)"

text \<open>\<^verbatim>\<open>f.degree(y)\<close>: the degree in the second variable.\<close>

definition degree_y :: "bipoly \<Rightarrow> nat" where
  "degree_y f = max_nat_list (map (\<lambda>((i, j), c). j) f)"

text \<open>\<^verbatim>\<open>f.subs({x: x0})\<close> read as a polynomial in \<open>y\<close>.\<close>

definition subs_x :: "bipoly \<Rightarrow> complex \<Rightarrow> unipoly" where
  "subs_x f x0 =
     map (\<lambda>k. sum_list (map (\<lambda>((i, j), c). if j = k then c * x0 ^ i else 0) f))
       [0 ..< Suc (degree_y f)]"

subsection \<open>Root isolation: \<^verbatim>\<open>roots_interval\<close>\<close>

text \<open>
  The numeric collaborators of \<^verbatim>\<open>roots_interval\<close>:
  \<^item> \<open>roots fx\<close> is \<^verbatim>\<open>fx.roots(QQbar, multiplicities=False)\<close>;
  \<^item> \<open>CF prec z\<close> is \<^verbatim>\<open>ComplexField(prec)(z)\<close>, the rounding of \<open>z\<close>;
  \<^item> \<open>newton_in prec fx r b\<close> is the test
    \<^verbatim>\<open>newton(fx, r, b) in b\<close> with \<open>b\<close> an interval of precision \<open>prec\<close>.
\<close>

record numerics =
  roots :: "unipoly \<Rightarrow> complex list"
  CF :: "nat \<Rightarrow> complex \<Rightarrow> complex"
  newton_in :: "nat \<Rightarrow> unipoly \<Rightarrow> complex \<Rightarrow> box \<Rightarrow> bool"

text \<open>
  \<^verbatim>\<open>min((CF(r)-CF(r0)).abs() for r0 in roots[:i]+roots[i+1:]) / divisor\<close>,
  for a non-empty list of other roots.
\<close>

definition diam_of :: "numerics \<Rightarrow> nat \<Rightarrow> complex list \<Rightarrow> complex \<Rightarrow> real \<Rightarrow> real" where
  "diam_of N prec others r divisor =
     min_list (map (\<lambda>r0. cmod (CF N prec r - CF N prec r0)) others) / divisor"

text \<open>
  The \<^verbatim>\<open>while not newton(fx, r, r+envelop) in r+envelop\<close> loop of one root. The
  state is \<open>(prec, divisor)\<close>; \<open>diam\<close> and \<open>envelop\<close> are functions of it. A failed
  test runs the body: \<^verbatim>\<open>prec += 53\<close>, \<^verbatim>\<open>divisor *= 2\<close>. The result is the
  precision and the interval at exit.
\<close>

fun isolate_loop ::
  "nat \<Rightarrow> numerics \<Rightarrow> unipoly \<Rightarrow> complex list \<Rightarrow> complex \<Rightarrow> nat \<Rightarrow> real \<Rightarrow> (nat \<times> box) option"
where
  "isolate_loop 0 N fx others r prec divisor = None"
| "isolate_loop (Suc fuel) N fx others r prec divisor =
     (let envelop = envelop_at r (diam_of N prec others r divisor)
      in if newton_in N prec fx r envelop then Some (prec, envelop)
         else isolate_loop fuel N fx others r (prec + 53) (divisor * 2))"

text \<open>
  One iteration of \<^verbatim>\<open>for i in range(len(roots))\<close>. The first \<^verbatim>\<open>min\<close> is taken
  before the loop is entered; Python's \<^verbatim>\<open>min\<close> of an empty sequence raises
  \<^verbatim>\<open>ValueError\<close>. The key \<open>qapr\<close> is the rounding of the root at the final
  precision.
\<close>

definition isolate_root ::
  "nat \<Rightarrow> numerics \<Rightarrow> unipoly \<Rightarrow> complex list \<Rightarrow> nat \<Rightarrow> (complex \<times> box) res"
where
  "isolate_root fuel N fx rts i =
     (let r = rts ! i; others = take i rts @ drop (Suc i) rts
      in if others = [] then Some (Inl (ValueError ''min() arg is an empty sequence''))
         else (case isolate_loop fuel N fx others r 53 4 of
                 None \<Rightarrow> None
               | Some (prec, envelop) \<Rightarrow>
                   (let qapr = CF N prec r
                    in if \<not> contains envelop qapr
                       then Some (Inl (ValueError ''Could not approximate roots with exact values''))
                       else Some (Inr (qapr, envelop)))))"

text \<open>
  The \<^verbatim>\<open>for\<close> loop over the indices, filling the dictionary \<^verbatim>\<open>result\<close>
  (an association list in insertion order; assigning to a key already present replaces
  its value).
\<close>

fun isolate_all ::
  "nat \<Rightarrow> numerics \<Rightarrow> unipoly \<Rightarrow> complex list \<Rightarrow> nat list \<Rightarrow> (complex \<times> box) list
     \<Rightarrow> ((complex \<times> box) list) res"
where
  "isolate_all fuel N fx rts [] result = Some (Inr result)"
| "isolate_all fuel N fx rts (i # is) result =
     (case isolate_root fuel N fx rts i of
        None \<Rightarrow> None
      | Some (Inl e) \<Rightarrow> Some (Inl e)
      | Some (Inr (qapr, b)) \<Rightarrow> isolate_all fuel N fx rts is (AList.update qapr b result))"

definition roots_interval :: "nat \<Rightarrow> numerics \<Rightarrow> bipoly \<Rightarrow> complex \<Rightarrow> ((complex \<times> box) list) res" where
  "roots_interval fuel N f x0 =
     (let fx = subs_x f x0; rts = roots N fx
      in isolate_all fuel N fx rts [0 ..< length rts] [])"


subsection \<open>Adaptive Voronoi decomposition: \<^verbatim>\<open>corrected_voronoi_diagram\<close>\<close>

text \<open>
  A region of a Voronoi diagram, as far as the source inspects it: its list of rays
  (empty for a bounded region) and the test \<^verbatim>\<open>interior_contains\<close>. A diagram is
  the list \<^verbatim>\<open>V.regions().items()\<close> of sites with their regions.
\<close>

record region =
  rays :: "(rat \<times> rat) list"
  interior_contains :: "real \<times> real \<Rightarrow> bool"

type_synonym diagram = "((rat \<times> rat) \<times> region) list"

text \<open>
  The collaborators: \<open>RF prec x\<close> is \<^verbatim>\<open>QQ(RealField(prec)(x))\<close> and
  \<open>VoronoiDiagram\<close> builds the diagram of a list of rational points.
\<close>

record geometry =
  RF :: "nat \<Rightarrow> real \<Rightarrow> rat"
  VoronoiDiagram :: "(rat \<times> rat) list \<Rightarrow> diagram"

text \<open>
  \<^verbatim>\<open>{(QQ(RF(p[0])), QQ(RF(p[1]))): p for p in point_coordinates}\<close>: a later point
  with the same rounded key replaces an earlier one.
\<close>

definition apprpoints ::
  "geometry \<Rightarrow> nat \<Rightarrow> (real \<times> real) list \<Rightarrow> ((rat \<times> rat) \<times> (real \<times> real)) list"
where
  "apprpoints C prec pts =
     fold (\<lambda>p m. AList.update (RF C prec (fst p), RF C prec (snd p)) p m) pts []"

text \<open>
  \<^verbatim>\<open>3 * max(map(abs, flatten(apprpoints))) + 1\<close>; \<^verbatim>\<open>flatten\<close> of the dictionary
  lists the coordinates of its keys, and \<^verbatim>\<open>max\<close> of nothing raises.
\<close>

fun max_list :: "'a::linorder list \<Rightarrow> 'a" where
  "max_list (x # xs) = (case xs of [] \<Rightarrow> x | _ \<Rightarrow> max x (max_list xs))"

definition added_points :: "((rat \<times> rat) \<times> (real \<times> real)) list \<Rightarrow> error + rat" where
  "added_points ap =
     (let coords = concat (map (\<lambda>((a, b), p). [a, b]) ap)
      in if coords = [] then Inl (ValueError ''max() arg is an empty sequence'')
         else Inr (3 * max_list (map abs coords) + 1))"

definition configuration :: "((rat \<times> rat) \<times> (real \<times> real)) list \<Rightarrow> rat \<Rightarrow> (rat \<times> rat) list" where
  "configuration ap added =
     map fst ap @ [(added, 0), (- added, 0), (0, added), (0, - added)]"

text \<open>
  The \<^verbatim>\<open>for r in V.regions().items()\<close> loop: \<open>Inr False\<close> at the first bounded
  region whose interior does not contain the original point of its site, \<open>Inr True\<close> when
  the loop runs to its end. The dictionary is read only for a region without rays
  (\<^verbatim>\<open>and\<close> is short-circuit), and a missing key raises \<^verbatim>\<open>KeyError\<close>.
\<close>

fun regions_valid :: "((rat \<times> rat) \<times> (real \<times> real)) list \<Rightarrow> diagram \<Rightarrow> error + bool" where
  "regions_valid ap [] = Inr True"
| "regions_valid ap ((site, reg) # rs) =
     (if rays reg = []
      then (case map_of ap site of
              None \<Rightarrow> Inl KeyError
            | Some p \<Rightarrow> if \<not> interior_contains reg p then Inr False else regions_valid ap rs)
      else regions_valid ap rs)"

text \<open>One pass of the \<^verbatim>\<open>while True\<close> body at precision \<open>prec\<close>.\<close>

definition voronoi_attempt :: "geometry \<Rightarrow> (real \<times> real) list \<Rightarrow> nat \<Rightarrow> error + (bool \<times> diagram)" where
  "voronoi_attempt C pts prec =
     (let ap = apprpoints C prec pts
      in case added_points ap of
           Inl e \<Rightarrow> Inl e
         | Inr added \<Rightarrow>
             (let V = VoronoiDiagram C (configuration ap added)
              in case regions_valid ap V of
                   Inl e \<Rightarrow> Inl e
                 | Inr valid \<Rightarrow> Inr (valid, V)))"

text \<open>
  The \<^verbatim>\<open>while True\<close> loop; an invalid diagram runs \<^verbatim>\<open>prec += 53\<close> and starts
  over. The result is the loop state at the \<^verbatim>\<open>break\<close>: the precision and \<open>V\<close>.
\<close>

fun voronoi_loop :: "nat \<Rightarrow> geometry \<Rightarrow> (real \<times> real) list \<Rightarrow> nat \<Rightarrow> (nat \<times> diagram) res" where
  "voronoi_loop 0 C pts prec = None"
| "voronoi_loop (Suc fuel) C pts prec =
     (case voronoi_attempt C pts prec of
        Inl e \<Rightarrow> Some (Inl e)
      | Inr (valid, V) \<Rightarrow>
          if valid then Some (Inr (prec, V)) else voronoi_loop fuel C pts (prec + 53))"

definition corrected_voronoi_diagram :: "nat \<Rightarrow> geometry \<Rightarrow> complex list \<Rightarrow> diagram res" where
  "corrected_voronoi_diagram fuel C points =
     (let point_coordinates = map (\<lambda>p. (Re p, Im p)) points
      in case voronoi_loop fuel C point_coordinates 53 of
           None \<Rightarrow> None
         | Some (Inl e) \<Rightarrow> Some (Inl e)
         | Some (Inr (prec, V)) \<Rightarrow> Some (Inr V))"

subsection \<open>Braid extraction: \<^verbatim>\<open>braid_from_piecewise\<close>\<close>

text \<open>
  A strand is a list of samples \<open>(t, c1, c2)\<close>; a point is \<open>[c1, c2]\<close>, compared
  lexicographically as Python compares lists. The coordinates are exact numbers of an
  ordered field (rationals, or real algebraic numbers).
\<close>

type_synonym 'a sample = "'a \<times> 'a \<times> 'a"
type_synonym 'a point = "'a \<times> 'a"

text \<open>The first error of a list of results, or all the values.\<close>

fun sequence :: "(error + 'b) list \<Rightarrow> error + 'b list" where
  "sequence [] = Inr []"
| "sequence (Inl e # rs) = Inl e"
| "sequence (Inr v # rs) = (case sequence rs of Inl e \<Rightarrow> Inl e | Inr vs \<Rightarrow> Inr (v # vs))"

text \<open>
  \<^verbatim>\<open>min(val[indices[k]][0] for k, val in enumerate(L))\<close>: reading past the end of
  a strand raises \<^verbatim>\<open>IndexError\<close>, and \<^verbatim>\<open>min\<close> of no strand at all raises
  \<^verbatim>\<open>ValueError\<close>.
\<close>

definition next_time :: "'a::linordered_field sample list list \<Rightarrow> nat list \<Rightarrow> error + 'a" where
  "next_time L indices =
     (case sequence (map (\<lambda>(val, k). if k < length val then Inr (fst (val ! k)) else Inl IndexError)
                       (zip L indices)) of
        Inl e \<Rightarrow> Inl e
      | Inr ts \<Rightarrow> if ts = [] then Inl (ValueError ''min() arg is an empty sequence'')
                  else Inr (min_list ts))"

text \<open>
  The body of \<^verbatim>\<open>for j, val in enumerate(L)\<close> for one strand: the new point of the
  strand at time \<open>i\<close> and its new index. The index \<open>k\<close> is in range and at least 1 here.
  Division of exact numbers by zero raises.
\<close>

definition merge_strand ::
  "'a::linordered_field \<Rightarrow> 'a sample list \<Rightarrow> nat \<Rightarrow> error + ('a point \<times> nat)"
where
  "merge_strand i val k =
     (if fst (val ! k) > i
      then (let xauxr = fst (snd (val ! (k - 1)));
                xauxi = snd (snd (val ! (k - 1)));
                yauxr = fst (snd (val ! k));
                yauxi = snd (snd (val ! k));
                aaux = fst (val ! (k - 1));
                baux = fst (val ! k)
            in if baux - aaux = 0 then Inl ZeroDivisionError
               else Inr ((xauxr + (yauxr - xauxr) * (i - aaux) / (baux - aaux),
                          xauxi + (yauxi - xauxi) * (i - aaux) / (baux - aaux)), k))
      else Inr ((fst (snd (val ! k)), snd (snd (val ! k))), k + 1))"

definition merge_step ::
  "'a::linordered_field \<Rightarrow> 'a sample list list \<Rightarrow> nat list \<Rightarrow> 'a point list list
     \<Rightarrow> error + (nat list \<times> 'a point list list)"
where
  "merge_step i L indices totalpoints =
     (case sequence (map (\<lambda>(val, k). merge_strand i val k) (zip L indices)) of
        Inl e \<Rightarrow> Inl e
      | Inr rs \<Rightarrow> Inr (map snd rs, map (\<lambda>(pts, r). pts @ [fst r]) (zip totalpoints rs)))"

text \<open>
  The \<^verbatim>\<open>while i < 1\<close> loop. The variable \<open>i\<close> always holds
  \<^verbatim>\<open>min(val[indices[k]][0] ...)\<close> of the current indices (it is set so before the
  loop, where every index is 1, and at the end of the body), so the loop takes the
  indices and computes \<open>i\<close> at its head.
\<close>

definition remaining :: "'a list list \<Rightarrow> nat list \<Rightarrow> nat" where
  "remaining L indices = sum_list (map (\<lambda>(val, k). length val - k) (zip L indices))"

function merge_loop ::
  "'a::linordered_field sample list list \<Rightarrow> nat list \<Rightarrow> 'a point list list
     \<Rightarrow> error + 'a point list list"
where
  "merge_loop L indices totalpoints =
     (case next_time L indices of
        Inl e \<Rightarrow> Inl e
      | Inr i \<Rightarrow>
          if i < 1
          then (case merge_step i L indices totalpoints of
                  Inl e \<Rightarrow> Inl e
                | Inr (indices', totalpoints') \<Rightarrow> merge_loop L indices' totalpoints')
          else Inr totalpoints)"
  by pat_completeness auto

text \<open>Each pass of the loop moves at least one index forward: the loop terminates.\<close>

lemma sequence_map_Inr_id: "sequence (map Inr vs) = Inr vs"
  by (induction vs) simp_all

lemma sequence_Inr_D: "sequence rs = Inr vs \<Longrightarrow> rs = map Inr vs"
  by (induction rs arbitrary: vs rule: sequence.induct) (auto split: sum.splits)

lemma sequence_Inr_iff: "sequence rs = Inr vs \<longleftrightarrow> rs = map Inr vs"
  using sequence_Inr_D sequence_map_Inr_id by metis

lemma sequence_map_Inr:
  assumes "sequence (map f xs) = Inr vs"
  shows "length vs = length xs" and "\<And>n. n < length xs \<Longrightarrow> f (xs ! n) = Inr (vs ! n)"
proof -
  from assms have eq: "map f xs = map Inr vs" by (simp add: sequence_Inr_iff)
  then show len: "length vs = length xs" by (metis length_map)
  fix n assume "n < length xs"
  with eq len show "f (xs ! n) = Inr (vs ! n)" by (metis nth_map)
qed

lemma remaining_sum:
  "remaining L indices = (\<Sum>n = 0 ..< min (length L) (length indices). length (L ! n) - indices ! n)"
  unfolding remaining_def sum_list_sum_nth by (rule sum.cong) simp_all

lemma next_time_Inr:
  assumes "next_time L indices = Inr i"
  shows "\<And>n. n < min (length L) (length indices) \<Longrightarrow>
            indices ! n < length (L ! n) \<and> i \<le> fst (L ! n ! (indices ! n))"
    and "\<exists>n < min (length L) (length indices). fst (L ! n ! (indices ! n)) = i"
proof -
  let ?f = "\<lambda>(val, k). if k < length val then Inr (fst (val ! k)) else Inl IndexError"
  from assms obtain ts where ts: "sequence (map ?f (zip L indices)) = Inr ts" "ts \<noteq> []"
    "i = min_list ts"
    by (auto simp: next_time_def split: sum.splits if_splits)
  note sq = sequence_map_Inr [OF ts(1)]
  have len: "length ts = min (length L) (length indices)" using sq(1) by simp
  have nth: "indices ! n < length (L ! n) \<and> ts ! n = fst (L ! n ! (indices ! n))"
    if "n < min (length L) (length indices)" for n
    using sq(2) [of n] that by (auto split: if_splits)
  have m: "i = Min (set ts)" using ts by (simp add: min_list_Min)
  show "indices ! n < length (L ! n) \<and> i \<le> fst (L ! n ! (indices ! n))"
    if "n < min (length L) (length indices)" for n
  proof -
    from that len have "ts ! n \<in> set ts" by simp
    then have "i \<le> ts ! n" unfolding m by simp
    with nth [OF that] show ?thesis by simp
  qed
  from ts(2) have "Min (set ts) \<in> set ts" by (intro Min_in) simp_all
  then obtain n where "n < length ts" "ts ! n = i" unfolding m by (auto simp: in_set_conv_nth)
  with len nth show "\<exists>n < min (length L) (length indices). fst (L ! n ! (indices ! n)) = i"
    by auto
qed

lemma merge_step_indices:
  assumes "merge_step i L indices tp = Inr (indices', tp')"
  shows "length indices' = min (length L) (length indices)"
    and "\<And>n. n < min (length L) (length indices) \<Longrightarrow>
            indices' ! n = (if fst (L ! n ! (indices ! n)) > i then indices ! n else indices ! n + 1)"
proof -
  from assms obtain rs where rs: "sequence (map (\<lambda>(val, k). merge_strand i val k) (zip L indices)) = Inr rs"
    "indices' = map snd rs"
    by (auto simp: merge_step_def split: sum.splits)
  note sq = sequence_map_Inr [OF rs(1)]
  show "length indices' = min (length L) (length indices)" using sq(1) rs(2) by simp
  fix n assume n: "n < min (length L) (length indices)"
  with sq(2) [of n] have "Inr (rs ! n) = merge_strand i (L ! n) (indices ! n)" by simp
  then have "snd (rs ! n) = (if fst (L ! n ! (indices ! n)) > i then indices ! n else indices ! n + 1)"
    by (auto simp: merge_strand_def Let_def split: if_splits)
  with n sq(1) rs(2)
  show "indices' ! n = (if fst (L ! n ! (indices ! n)) > i then indices ! n else indices ! n + 1)"
    by simp
qed

lemma merge_step_decreases:
  assumes "next_time L indices = Inr i" "merge_step i L indices tp = Inr (indices', tp')"
  shows "remaining L indices' < remaining L indices"
proof -
  let ?N = "min (length L) (length indices)"
  note nt = next_time_Inr [OF assms(1)]
  note ms = merge_step_indices [OF assms(2)]
  have N': "min (length L) (length indices') = ?N" using ms(1) by simp
  have le: "length (L ! n) - indices' ! n \<le> length (L ! n) - indices ! n" if "n \<in> {0 ..< ?N}" for n
    using ms(2) [of n] that by (auto split: if_splits)
  from nt(2) obtain m where m: "m < ?N" "fst (L ! m ! (indices ! m)) = i" by blast
  with ms(2) [of m] nt(1) [of m]
  have "length (L ! m) - indices' ! m < length (L ! m) - indices ! m" by simp
  with m(1) have "\<exists>n \<in> {0 ..< ?N}. length (L ! n) - indices' ! n < length (L ! n) - indices ! n"
    by auto
  with le have "(\<Sum>n = 0 ..< ?N. length (L ! n) - indices' ! n)
      < (\<Sum>n = 0 ..< ?N. length (L ! n) - indices ! n)"
    by (intro sum_strict_mono_ex1) auto
  then show ?thesis by (simp add: remaining_sum N')
qed

termination merge_loop
  by (relation "measure (\<lambda>(L, indices, tp). remaining L indices)")
     (auto simp: merge_step_decreases)

text \<open>The nested \<^verbatim>\<open>sgn\<close> of the source.\<close>

definition sgn_xy :: "'a::linorder \<Rightarrow> 'a \<Rightarrow> int" where
  "sgn_xy x y = (if x < y then 1 else if x > y then - 1 else 0)"

text \<open>
  A crossing \<^verbatim>\<open>[t, k, j, s]\<close> of the strands at the sorted positions \<open>k < j\<close>. The
  division is exact, so a zero denominator raises.
\<close>

type_synonym 'a cruce = "'a \<times> nat \<times> nat \<times> int"

definition cruce_of :: "'a::linordered_field point list \<Rightarrow> 'a point list \<Rightarrow> nat \<Rightarrow> nat \<Rightarrow> error + 'a cruce" where
  "cruce_of l1 l2 j k =
     (let d = (fst (l2 ! k) - fst (l2 ! j)) + (fst (l1 ! j) - fst (l1 ! k))
      in if d = 0 then Inl ZeroDivisionError
         else (let t = (fst (l1 ! j) - fst (l1 ! k)) / d;
                   s = sgn_xy (snd (l1 ! k) * (1 - t) + t * snd (l2 ! k))
                              (snd (l1 ! j) * (1 - t) + t * snd (l2 ! j))
               in Inr (t, k, j, s)))"

text \<open>
  The double loop \<^verbatim>\<open>for j in range(len(l2)): for k in range(j): if l2[j] < l2[k]\<close>,
  on the lists already sorted by \<^verbatim>\<open>M.sort()\<close>.
\<close>

definition cruces_of :: "'a::linordered_field point list \<Rightarrow> 'a point list \<Rightarrow> error + 'a cruce list" where
  "cruces_of l1 l2 =
     sequence (concat (map (\<lambda>j. map (cruce_of l1 l2 j) (filter (\<lambda>k. l2 ! j < l2 ! k) [0 ..< j]))
                         [0 ..< length l2]))"

text \<open>
  The crossings of the \<open>i\<close>-th interval: the columns \<open>i\<close> and \<open>i + 1\<close> of
  \<^verbatim>\<open>totalpoints\<close>, paired and sorted.
\<close>

definition interval_cruces :: "'a::linordered_field point list list \<Rightarrow> nat \<Rightarrow> error + 'a cruce list" where
  "interval_cruces totalpoints i =
     (let l1 = map (\<lambda>pts. pts ! i) totalpoints;
          l2 = map (\<lambda>pts. pts ! (i + 1)) totalpoints;
          M = sort (zip l1 l2)
      in cruces_of (map fst M) (map snd M))"

text \<open>
  A permutation of \<^verbatim>\<open>SymmetricGroup(n)\<close> is the function it applies. Sage multiplies
  permutations left to right, so \<^verbatim>\<open>G(Permutation([(a, b)])) * P\<close> applies the
  transposition first.
\<close>

definition transposition :: "nat \<Rightarrow> nat \<Rightarrow> nat \<Rightarrow> nat" where
  "transposition a b x = (if x = a then b else if x = b then a else x)"

type_synonym crosse = "int \<times> nat \<times> nat \<times> int"

definition crosses_of :: "(nat \<Rightarrow> nat) \<Rightarrow> (nat \<times> nat \<times> int) list \<Rightarrow> crosse list" where
  "crosses_of P cs = map (\<lambda>(c1, c2, s). (int (P (c2 + 1)) - int (P (c1 + 1)), c1, c2, s)) cs"

text \<open>
  The inner \<^verbatim>\<open>while crossesl\<close> loop: sort, pop the smallest, emit its generator,
  update the permutation and recompute the keys of the others.
\<close>

function resolve_crossesl :: "(nat \<Rightarrow> nat) \<Rightarrow> crosse list \<Rightarrow> int list \<Rightarrow> (nat \<Rightarrow> nat) \<times> int list" where
  "resolve_crossesl P crossesl braid =
     (if crossesl = [] then (P, braid)
      else (let sorted = sort crossesl;
                c = hd sorted;
                c1 = fst (snd c); c2 = fst (snd (snd c)); s = snd (snd (snd c));
                braid' = braid @ [s * int (min (P (c1 + 1)) (P (c2 + 1)))];
                P' = P \<circ> transposition (c1 + 1) (c2 + 1)
            in resolve_crossesl P' (crosses_of P' (map snd (tl sorted))) braid'))"
  by pat_completeness auto
termination
  by (relation "measure (\<lambda>(P, crossesl, braid). length crossesl)")
     (auto simp: crosses_of_def)

text \<open>
  The outer \<^verbatim>\<open>while cruces\<close> loop: take the crossings that share the first
  \<open>t\<close>, resolve them, go on with the others.
\<close>

function resolve_cruces :: "(nat \<Rightarrow> nat) \<Rightarrow> 'a cruce list \<Rightarrow> int list \<Rightarrow> int list" where
  "resolve_cruces P cruces braid =
     (if cruces = [] then braid
      else (let crucesl = filter (\<lambda>c. fst c = fst (hd cruces)) cruces;
                crossesl = crosses_of P (map snd crucesl);
                cruces' = drop (length crucesl) cruces;
                (P', braid') = resolve_crossesl P crossesl braid
            in resolve_cruces P' cruces' braid'))"
  by pat_completeness auto
termination
proof (relation "measure (\<lambda>(P, cruces, braid). length cruces)", goal_cases)
  case 1
  show ?case by simp
next
  case (2 P cruces braid crucesl crossesl cruces' PB P' braid')
  from 2(1) have "hd cruces \<in> set cruces" by simp
  with 2(2) have "crucesl \<noteq> []" by (auto simp: filter_empty_conv)
  with 2(1,4) show ?case by simp
qed

declare resolve_crossesl.simps [simp del] resolve_cruces.simps [simp del]

text \<open>
  The \<^verbatim>\<open>for i in range(len(totalpoints[0]) - 1)\<close> loop, appending to
  \<^verbatim>\<open>braid\<close>; the permutation starts from the identity in each interval that has
  crossings.
\<close>

fun braid_word :: "'a::linordered_field point list list \<Rightarrow> nat list \<Rightarrow> int list \<Rightarrow> error + int list" where
  "braid_word totalpoints [] braid = Inr braid"
| "braid_word totalpoints (i # is) braid =
     (case interval_cruces totalpoints i of
        Inl e \<Rightarrow> Inl e
      | Inr cruces \<Rightarrow>
          braid_word totalpoints is
            (if cruces \<noteq> [] then resolve_cruces id (sort cruces) braid else braid))"

text \<open>
  Modelled from the spec: the braid group object model is not part of the source file.
  A braid is "an element of the braid group on \<open>n\<close> strands, represented as a word of
  signed generator indices (generator \<open>i\<close> = strand \<open>i\<close> crosses over/under strand
  \<open>i+1\<close>)": the group on \<open>n\<close> strands has the generators \<open>1, ..., n-1\<close>, so it needs
  two strands at least, a letter of a word is \<open>\<plusminus>i\<close> with \<open>1 \<le> i \<le> n-1\<close>, and a word is
  kept freely reduced (a generator next to its inverse cancels). \<^verbatim>\<open>BraidGroup(n)(word)\<close>
  raises \<^verbatim>\<open>ValueError\<close> for anything else; the empty word is the identity.
\<close>

record braid =
  strands :: nat
  word :: "int list"

fun free_reduce :: "int list \<Rightarrow> int list" where
  "free_reduce [] = []"
| "free_reduce (g # w) =
     (case free_reduce w of
        [] \<Rightarrow> [g]
      | h # t \<Rightarrow> if h = - g then t else g # h # t)"

definition BraidGroup :: "nat \<Rightarrow> int list \<Rightarrow> error + braid" where
  "BraidGroup n w =
     (if n < 2 then Inl (ValueError ''the number of strands must be an integer bigger than one'')
      else if list_ex (\<lambda>g. g < - (int n - 1) \<or> int n - 1 < g) w
      then Inl (ValueError ''generators not in the group'')
      else if list_ex (\<lambda>g. g = 0) w then Inl (ValueError ''zero does not denote a generator'')
      else Inr \<lparr>strands = n, word = free_reduce w\<rparr>)"

text \<open>
  The points of the strands at the merged breakpoints: the first sample, the points added
  by the loop, the last sample.
\<close>

definition merged_points :: "'a::linordered_field sample list list \<Rightarrow> error + 'a point list list" where
  "merged_points L =
     (case merge_loop L (map (\<lambda>a. 1) L) (map (\<lambda>a. map snd (take 1 a)) L) of
        Inl e \<Rightarrow> Inl e
      | Inr totalpoints \<Rightarrow>
          Inr (map (\<lambda>(pts, val). pts @ [snd (last val)]) (zip totalpoints L)))"

definition braid_from_piecewise :: "'a::linordered_field sample list list \<Rightarrow> error + braid" where
  "braid_from_piecewise L =
     (case merged_points L of
        Inl e \<Rightarrow> Inl e
      | Inr totalpoints \<Rightarrow>
          (case braid_word totalpoints [0 ..< length (hd totalpoints) - 1] [] of
             Inl e \<Rightarrow> Inl e
           | Inr w \<Rightarrow> BraidGroup (length L) w))"

subsection \<open>Strands, their segments and their crossings\<close>











subsection \<open>Homotopy continuation: \<^verbatim>\<open>followstrand\<close>\<close>

text \<open>The value of a bivariate polynomial at a point.\<close>

definition eval_bipoly :: "bipoly \<Rightarrow> complex \<Rightarrow> complex \<Rightarrow> complex" where
  "eval_bipoly f x y = sum_list (map (\<lambda>((i, j), c). c * x ^ i * y ^ j) f)"

text \<open>
  The numeric collaborators of \<^verbatim>\<open>followstrand\<close>. The certified continuation
  routines of \<^verbatim>\<open>sage.libs.sirocco\<close> take the polynomial along the segment from
  \<open>x0\<close> to \<open>x1\<close> and the starting root, and return the polyline, or \<open>None\<close> when
  they raise. (The source passes the polynomials as lists of interval endpoints of their
  coefficients.) \<open>CF_roots prec f x0\<close> is
  \<^verbatim>\<open>CF[y](g.subs({x: x0})).roots()\<close> for \<^verbatim>\<open>g = f.change_ring(ComplexField(prec))\<close>:
  the roots that the floating-point root finder returns for the fiber, numbers of
  \<open>prec\<close> bits, or the exception it raises.
\<close>

record sirocco =
  contpath :: "bipoly \<Rightarrow> complex \<Rightarrow> complex \<Rightarrow> complex \<Rightarrow> real sample list option"
  contpath_comps ::
    "bipoly \<Rightarrow> bipoly list \<Rightarrow> complex \<Rightarrow> complex \<Rightarrow> complex \<Rightarrow> real sample list option"
  contpath_mp :: "nat \<Rightarrow> bipoly \<Rightarrow> complex \<Rightarrow> complex \<Rightarrow> complex \<Rightarrow> real sample list option"
  contpath_mp_comps ::
    "nat \<Rightarrow> bipoly \<Rightarrow> bipoly list \<Rightarrow> complex \<Rightarrow> complex \<Rightarrow> complex \<Rightarrow> real sample list option"
  CF_roots :: "nat \<Rightarrow> bipoly \<Rightarrow> complex \<Rightarrow> error + complex list"

text \<open>
  The \<^verbatim>\<open>if f.degree() == 1\<close> branch: \<^verbatim>\<open>roots()[0][0]\<close> is the first root of
  the list, and raises \<^verbatim>\<open>IndexError\<close> on the empty list.
\<close>

definition first_root :: "error + complex list \<Rightarrow> error + complex" where
  "first_root rs = (case rs of Inl e \<Rightarrow> Inl e | Inr [] \<Rightarrow> Inl IndexError | Inr (y # ys) \<Rightarrow> Inr y)"

definition followstrand_linear ::
  "sirocco \<Rightarrow> nat \<Rightarrow> bipoly \<Rightarrow> complex \<Rightarrow> complex \<Rightarrow> error + real sample list"
where
  "followstrand_linear S prec f x0 x1 =
     (case first_root (CF_roots S prec f x0) of
        Inl e \<Rightarrow> Inl e
      | Inr y0 \<Rightarrow>
          (case first_root (CF_roots S prec f x1) of
             Inl e \<Rightarrow> Inl e
           | Inr y1 \<Rightarrow> Inr [(0, Re y0, Im y0), (1, Re y1, Im y1)]))"

text \<open>The body of the \<^verbatim>\<open>try\<close>: which routine is called.\<close>

definition continuation ::
  "sirocco \<Rightarrow> bipoly \<Rightarrow> bipoly list \<Rightarrow> complex \<Rightarrow> complex \<Rightarrow> complex \<Rightarrow> nat \<Rightarrow> real sample list option"
where
  "continuation S f factors x0 x1 y0a prec =
     (if prec = 53
      then (if factors \<noteq> [] then contpath_comps S f factors x0 x1 y0a
            else contpath S f x0 x1 y0a)
      else (if factors \<noteq> [] then contpath_mp_comps S prec f factors x0 x1 y0a
            else contpath_mp S prec f x0 x1 y0a))"

text \<open>
  \<^verbatim>\<open>followstrand\<close>; \<open>f.degree()\<close> is the total degree. An exception of the
  continuation calls the function again with \<^verbatim>\<open>2 * prec\<close>, without bound: the
  fuel counts these calls.
\<close>

fun followstrand ::
  "nat \<Rightarrow> sirocco \<Rightarrow> bipoly \<Rightarrow> bipoly list \<Rightarrow> complex \<Rightarrow> complex \<Rightarrow> complex \<Rightarrow> nat
     \<Rightarrow> (real sample list) res"
where
  "followstrand fuel S f factors x0 x1 y0a prec =
     (if degree f = 1 then Some (followstrand_linear S prec f x0 x1)
      else (case fuel of
              0 \<Rightarrow> None
            | Suc fuel' \<Rightarrow>
                (case continuation S f factors x0 x1 y0a prec of
                   Some points \<Rightarrow> Some (Inr points)
                 | None \<Rightarrow> followstrand fuel' S f factors x0 x1 y0a (2 * prec))))"

declare followstrand.simps [simp del]

subsection \<open>The cache of interval maps\<close>

text \<open>
  The module-level dictionary \<^verbatim>\<open>roots_interval_cache\<close> is passed in and returned.
  \<^verbatim>\<open>roots_interval_cached\<close> answers from the cache, and stores a computed map
  only when \<^verbatim>\<open>roots_interval\<close> returned one.
\<close>

type_synonym intervalmap = "(complex \<times> box) list"
type_synonym cache = "((bipoly \<times> complex) \<times> intervalmap) list"

definition roots_interval_cached ::
  "nat \<Rightarrow> numerics \<Rightarrow> cache \<Rightarrow> bipoly \<Rightarrow> complex \<Rightarrow> (intervalmap \<times> cache) res"
where
  "roots_interval_cached fuel N c f x0 =
     (case map_of c (f, x0) of
        Some result \<Rightarrow> Some (Inr (result, c))
      | None \<Rightarrow>
          (case roots_interval fuel N f x0 of
             None \<Rightarrow> None
           | Some (Inl e) \<Rightarrow> Some (Inl e)
           | Some (Inr result) \<Rightarrow> Some (Inr (result, AList.update (f, x0) result c))))"

subsection \<open>Segment braids: \<^verbatim>\<open>braid_in_segment\<close>\<close>

text \<open>
  A \<^verbatim>\<open>Factorization\<close>: its value and its list of factors with multiplicities.
\<close>

record factorization =
  gvalue :: bipoly
  gfactors :: "(bipoly \<times> nat) list"

text \<open>\<^verbatim>\<open>itertools.combinations(xs, 2)\<close>.\<close>

fun combinations2 :: "'a list \<Rightarrow> ('a \<times> 'a) list" where
  "combinations2 [] = []"
| "combinations2 (x # xs) = map (Pair x) xs @ combinations2 xs"

text \<open>
  The \<^verbatim>\<open>while True\<close> loop of one factor: \<open>interval prec r\<close> is
  \<^verbatim>\<open>r.interval(ComplexIntervalField(prec))\<close>. The loop leaves when no two of the
  intervals of the roots of this factor overlap, and doubles the precision otherwise. The
  result is \<^verbatim>\<open>precision[f]\<close> and \<^verbatim>\<open>intervals[f]\<close> at the
  \<^verbatim>\<open>break\<close>.
\<close>

fun separate_loop ::
  "nat \<Rightarrow> (nat \<Rightarrow> complex \<Rightarrow> box) \<Rightarrow> complex list \<Rightarrow> nat \<Rightarrow> (nat \<times> box list) option"
where
  "separate_loop 0 interval y0sf prec = None"
| "separate_loop (Suc fuel) interval y0sf prec =
     (let ivs = map (interval prec) y0sf
      in if \<not> list_ex (\<lambda>(a, b). overlaps a b) (combinations2 ivs) then Some (prec, ivs)
         else separate_loop fuel interval y0sf (prec * 2))"

text \<open>
  The \<^verbatim>\<open>for (f, naux) in g\<close> loop, filling the dictionaries
  \<^verbatim>\<open>precision\<close> and \<^verbatim>\<open>intervals\<close> (one association list, keyed by the
  factor).
\<close>

fun fiber_intervals ::
  "nat \<Rightarrow> numerics \<Rightarrow> (nat \<Rightarrow> complex \<Rightarrow> box) \<Rightarrow> complex \<Rightarrow> (bipoly \<times> nat) list
     \<Rightarrow> (bipoly \<times> nat \<times> box list) list \<Rightarrow> (bipoly \<times> nat \<times> box list) list option"
where
  "fiber_intervals fuel N interval X0 [] table = Some table"
| "fiber_intervals fuel N interval X0 ((f, naux) # g) table =
     (let y0sf = roots N (subs_x f X0)
      in case separate_loop fuel interval y0sf 53 of
           None \<Rightarrow> None
         | Some entry \<Rightarrow> fiber_intervals fuel N interval X0 g (AList.update f entry table))"

text \<open>\<^verbatim>\<open>i.center()\<close>.\<close>

definition center :: "box \<Rightarrow> complex" where
  "center b = Complex ((re_lo b + re_hi b) / 2) ((im_lo b + im_hi b) / 2)"

text \<open>The first failure of a list of calls, or all their values.\<close>

fun res_sequence :: "'b res list \<Rightarrow> 'b list res" where
  "res_sequence [] = Some (Inr [])"
| "res_sequence (None # rs) = None"
| "res_sequence (Some (Inl e) # rs) = Some (Inl e)"
| "res_sequence (Some (Inr v) # rs) =
     (case res_sequence rs of
        None \<Rightarrow> None
      | Some (Inl e) \<Rightarrow> Some (Inl e)
      | Some (Inr vs) \<Rightarrow> Some (Inr (v # vs)))"

text \<open>
  The list comprehension \<^verbatim>\<open>strands\<close>: for each factor and each of its intervals,
  the continuation of the centre of the interval, avoiding the other factors, at the
  precision reached for the factor.
\<close>

definition segment_strands ::
  "nat \<Rightarrow> sirocco \<Rightarrow> (bipoly \<times> nat) list \<Rightarrow> (bipoly \<times> nat \<times> box list) list \<Rightarrow> complex \<Rightarrow> complex
     \<Rightarrow> (real sample list list) res"
where
  "segment_strands fuel S g table x0 x1 =
     res_sequence
       (concat (map (\<lambda>f.
          (case map_of table (fst f) of
             None \<Rightarrow> [Some (Inl KeyError)]
           | Some (prec, ivs) \<Rightarrow>
               map (\<lambda>i. followstrand fuel S (fst f)
                           (map fst (filter (\<lambda>p. fst p \<noteq> fst f) g)) x0 x1 (center i) prec)
                   ivs)) g))"

text \<open>
  The centres of the intervals of an interval map that contain the point \<open>p\<close>, in the
  order of \<^verbatim>\<open>.items()\<close>.
\<close>

definition matching :: "intervalmap \<Rightarrow> complex \<Rightarrow> complex list" where
  "matching m p = map fst (filter (\<lambda>(c, interval). contains interval p) m)"

text \<open>
  The endpoints \<^verbatim>\<open>ip = cs[0][1] + I*cs[0][2]\<close> and
  \<^verbatim>\<open>fp = cs[-1][1] + I*cs[-1][2]\<close> of a non-empty strand.
\<close>

definition initial_point :: "real sample list \<Rightarrow> complex" where
  "initial_point cs = Complex (fst (snd (hd cs))) (snd (snd (hd cs)))"

definition final_point :: "real sample list \<Rightarrow> complex" where
  "final_point cs = Complex (fst (snd (last cs))) (snd (snd (last cs)))"

text \<open>
  The body of \<^verbatim>\<open>for cs in complexstrands\<close>: the strands appended to
  \<^verbatim>\<open>initialstrands\<close> and to \<^verbatim>\<open>finalstrands\<close>, or the exception. An empty
  strand has no \<^verbatim>\<open>cs[0]\<close>.
\<close>

definition match_strand ::
  "intervalmap \<Rightarrow> intervalmap \<Rightarrow> real sample list
     \<Rightarrow> error + (real sample list list \<times> real sample list list)"
where
  "match_strand initialintervals finalintervals cs =
     (if cs = [] then Inl IndexError
      else (let ip = initial_point cs;
                fp = final_point cs;
                initial = map (\<lambda>c. [(0, Re c, Im c), (1, fst (snd (hd cs)), snd (snd (hd cs)))])
                            (matching initialintervals ip)
            in if length initial = 0
               then Inl (ValueError ''unable to match braid endpoint with root'')
               else if length initial > 1
               then Inl (ValueError ''braid endpoint mathes more than one root'')
               else (let final = map (\<lambda>c. [(0, fst (snd (last cs)), snd (snd (last cs))),
                                                (1, Re c, Im c)])
                                     (matching finalintervals fp)
                     in if length final = 0
                        then Inl (ValueError ''unable to match braid endpoint with root'')
                        else if length final > 1
                        then Inl (ValueError ''braid endpoint mathes more than one root'')
                        else Inr (initial, final))))"

fun match_strands ::
  "intervalmap \<Rightarrow> intervalmap \<Rightarrow> real sample list list
     \<Rightarrow> real sample list list \<Rightarrow> real sample list list
     \<Rightarrow> error + (real sample list list \<times> real sample list list)"
where
  "match_strands initialintervals finalintervals [] initialstrands finalstrands =
     Inr (initialstrands, finalstrands)"
| "match_strands initialintervals finalintervals (cs # css) initialstrands finalstrands =
     (case match_strand initialintervals finalintervals cs of
        Inl e \<Rightarrow> Inl e
      | Inr (initial, final) \<Rightarrow>
          match_strands initialintervals finalintervals css
            (initialstrands @ initial) (finalstrands @ final))"

text \<open>
  Modelled from the spec: the product of the braid group is not part of the source file.
  Braids are "composed left-to-right along a path": the word of the product is the
  concatenation of the words, freely reduced.
\<close>

definition braid_mult :: "braid \<Rightarrow> braid \<Rightarrow> braid" where
  "braid_mult a b = \<lparr>strands = strands a, word = free_reduce (word a @ word b)\<rparr>"

text \<open>
  \<^verbatim>\<open>braid_in_segment\<close>. The base points \<open>x0\<close>, \<open>x1\<close> are exact here, so
  \<open>X0 = x0\<close> and \<open>X1 = x1\<close>.
\<close>

definition braid_in_segment ::
  "nat \<Rightarrow> numerics \<Rightarrow> (nat \<Rightarrow> complex \<Rightarrow> box) \<Rightarrow> sirocco \<Rightarrow> cache
     \<Rightarrow> factorization \<Rightarrow> complex \<Rightarrow> complex \<Rightarrow> (braid \<times> cache) res"
where
  "braid_in_segment fuel N interval S c g x0 x1 =
     (case fiber_intervals fuel N interval x0 (gfactors g) [] of
        None \<Rightarrow> None
      | Some table \<Rightarrow>
     (case segment_strands fuel S (gfactors g) table x0 x1 of
        None \<Rightarrow> None
      | Some (Inl e) \<Rightarrow> Some (Inl e)
      | Some (Inr complexstrands) \<Rightarrow>
     (case braid_from_piecewise complexstrands of
        Inl e \<Rightarrow> Some (Inl e)
      | Inr centralbraid \<Rightarrow>
     (case roots_interval_cached fuel N c (gvalue g) x0 of
        None \<Rightarrow> None
      | Some (Inl e) \<Rightarrow> Some (Inl e)
      | Some (Inr (initialintervals, c1)) \<Rightarrow>
     (case roots_interval_cached fuel N c1 (gvalue g) x1 of
        None \<Rightarrow> None
      | Some (Inl e) \<Rightarrow> Some (Inl e)
      | Some (Inr (finalintervals, c2)) \<Rightarrow>
     (case match_strands initialintervals finalintervals complexstrands [] [] of
        Inl e \<Rightarrow> Some (Inl e)
      | Inr (initialstrands, finalstrands) \<Rightarrow>
     (case braid_from_piecewise initialstrands of
        Inl e \<Rightarrow> Some (Inl e)
      | Inr initialbraid \<Rightarrow>
     (case braid_from_piecewise finalstrands of
        Inl e \<Rightarrow> Some (Inl e)
      | Inr finalbraid \<Rightarrow>
          Some (Inr (braid_mult (braid_mult initialbraid centralbraid) finalbraid, c2))))))))))"

subsection \<open>Orientation of a circuit: \<^verbatim>\<open>orient_circuit\<close>\<close>

text \<open>
  A vertex of a Voronoi diagram is a point with rational coordinates
  (\<^verbatim>\<open>v.vector()\<close>); an edge of a circuit is a triple \<open>(u, v, label)\<close>.
\<close>

type_synonym vertex = "rat \<times> rat"
type_synonym 'l edge = "vertex \<times> vertex \<times> 'l"

text \<open>\<^verbatim>\<open>v[1].vector() - v[0].vector()\<close>, as the complex number \<^verbatim>\<open>CIF(*vector)\<close>.\<close>

definition edge_vector :: "'l edge \<Rightarrow> complex" where
  "edge_vector e =
     (case e of (u, v, l) \<Rightarrow> Complex (of_rat (fst v - fst u)) (of_rat (snd v - snd u)))"

text \<open>
  The pairs \<^verbatim>\<open>(vectors[i], vectors[i-1])\<close> for \<^verbatim>\<open>i in range(len(vectors))\<close>;
  Python's index \<open>-1\<close> is the last element.
\<close>

definition turn_pairs :: "complex list \<Rightarrow> (complex \<times> complex) list" where
  "turn_pairs vectors =
     map (\<lambda>i. (vectors ! i, vectors ! ((i + length vectors - 1) mod length vectors)))
       [0 ..< length vectors]"

text \<open>
  \<open>argument prec z w\<close> is the real interval \<^verbatim>\<open>(CIF(z)/CIF(w)).argument()\<close> computed
  with \<open>prec\<close> bits, given by its two endpoints. \<^verbatim>\<open>totalangle\<close> is the sum of these
  intervals (the rounding of the sum is not represented).
\<close>

definition totalangle ::
  "(nat \<Rightarrow> complex \<Rightarrow> complex \<Rightarrow> real \<times> real) \<Rightarrow> nat \<Rightarrow> complex list \<Rightarrow> real \<times> real"
where
  "totalangle argument prec vectors =
     (sum_list (map (\<lambda>(z, w). fst (argument prec z w)) (turn_pairs vectors)),
      sum_list (map (\<lambda>(z, w). snd (argument prec z w)) (turn_pairs vectors)))"

text \<open>
  The \<^verbatim>\<open>while True\<close> loop. An interval is \<^verbatim>\<open>< 0\<close> when its upper endpoint is,
  and \<^verbatim>\<open>> 0\<close> when its lower endpoint is; otherwise the precision is doubled. The
  result tells whether the circuit is to be reversed.
\<close>

fun orient_loop ::
  "nat \<Rightarrow> (nat \<Rightarrow> complex \<Rightarrow> complex \<Rightarrow> real \<times> real) \<Rightarrow> complex list \<Rightarrow> nat \<Rightarrow> bool option"
where
  "orient_loop 0 argument vectors prec = None"
| "orient_loop (Suc fuel) argument vectors prec =
     (if snd (totalangle argument prec vectors) < 0 then Some True
      else if fst (totalangle argument prec vectors) > 0 then Some False
      else orient_loop fuel argument vectors (prec * 2))"

text \<open>\<^verbatim>\<open>list(reversed([(c[1], c[0]) + c[2:] for c in circuit]))\<close>.\<close>

definition reverse_circuit :: "'l edge list \<Rightarrow> 'l edge list" where
  "reverse_circuit circuit = rev (map (\<lambda>(u, v, l). (v, u, l)) circuit)"

definition orient_circuit ::
  "nat \<Rightarrow> (nat \<Rightarrow> complex \<Rightarrow> complex \<Rightarrow> real \<times> real) \<Rightarrow> 'l edge list \<Rightarrow> 'l edge list option"
where
  "orient_circuit fuel argument circuit =
     (case orient_loop fuel argument (map edge_vector circuit) 53 of
        None \<Rightarrow> None
      | Some clockwise \<Rightarrow> Some (if clockwise then reverse_circuit circuit else circuit))"

text \<open>
  The total signed turning angle of a closed polygon with the given edge vectors, in
  exact arithmetic: the sum of the arguments, in \<open>(-pi, pi]\<close>, of the quotients of
  consecutive vectors.
\<close>

definition turning_angle :: "complex list \<Rightarrow> real" where
  "turning_angle vectors = sum_list (map (\<lambda>(z, w). Arg (z / w)) (turn_pairs vectors))"

text \<open>A polynomial as Sage stores it: each monomial once, with a non-zero coefficient.\<close>

definition wf_bipoly :: "bipoly \<Rightarrow> bool" where
  "wf_bipoly f = (distinct (map fst f) \<and> list_all (\<lambda>(m, c). c \<noteq> 0) f)"

text \<open>
  What the root finder of \<^verbatim>\<open>ComplexField(prec)\<close> does with a fiber \<open>c0 + c1*y\<close>
  of degree 1: it returns one root.
\<close>

definition solves_linear :: "sirocco \<Rightarrow> bool" where
  "solves_linear S \<longleftrightarrow>
     (\<forall>prec f x c0 c1. subs_x f x = [c0, c1] \<and> c1 \<noteq> 0 \<longrightarrow> (\<exists>y. CF_roots S prec f x = Inr [y]))"

subsection \<open>Collaborators used in the worked examples\<close>

text \<open>
  A toy rounding: \<open>k = prec div 53\<close> binary digits after the point, rounding down.
\<close>

definition dyadic_RF :: "nat \<Rightarrow> real \<Rightarrow> rat" where
  "dyadic_RF prec x = of_int \<lfloor>x * 2 ^ (prec div 53)\<rfloor> / 2 ^ (prec div 53)"

definition sqdist :: "real \<times> real \<Rightarrow> rat \<times> rat \<Rightarrow> real" where
  "sqdist q s = (fst q - of_rat (fst s))\<^sup>2 + (snd q - of_rat (snd s))\<^sup>2"

text \<open>
  The Voronoi diagram of a configuration whose last four points are the far auxiliary
  ones: the interior of the region of a site is the set of points strictly nearer to it
  than to every other site, and the auxiliary points own the regions with rays.
\<close>

definition nearest_site_diagram :: "(rat \<times> rat) list \<Rightarrow> diagram" where
  "nearest_site_diagram cfg =
     map (\<lambda>s. (s, \<lparr>rays = (if s \<in> set (drop (length cfg - 4) cfg) then [s] else []),
                   interior_contains = (\<lambda>q. list_all (\<lambda>t. t = s \<or> sqdist q s < sqdist q t) cfg)\<rparr>))
       cfg"

definition toy_geometry :: geometry where
  "toy_geometry = \<lparr>RF = dyadic_RF, VoronoiDiagram = nearest_site_diagram\<rparr>"

text \<open>
  Numerics with the given root finder: no rounding, and the interval Newton test succeeds
  from \<open>p\<close> bits on.
\<close>

definition toy_numerics :: "(unipoly \<Rightarrow> complex list) \<Rightarrow> nat \<Rightarrow> numerics" where
  "toy_numerics rootsof p =
     \<lparr>roots = rootsof, CF = (\<lambda>prec z. z), newton_in = (\<lambda>prec fx r b. p \<le> prec)\<rparr>"

text \<open>
  A root finder for the examples: the root of \<open>c0 + c1*y\<close>, the two roots of
  \<open>y^2 - 1\<close> and the two roots of \<open>y^2 + 1\<close>.
\<close>

definition toy_roots :: "unipoly \<Rightarrow> complex list" where
  "toy_roots fx =
     (if fx = [- 1, 0, 1] then [- 1, 1]
      else if fx = [1, 0, 1] then [- \<i>, \<i>]
      else (case fx of [c0, c1] \<Rightarrow> if c1 = 0 then [] else [- c0 / c1] | _ \<Rightarrow> []))"

text \<open>
  The curve \<open>(y - 1)*(y + 1)\<close> with its two linear factors, and the irreducible
  curve \<open>y^2 + 1\<close>.
\<close>

definition y_minus_1 :: bipoly where
  "y_minus_1 = [((0, 1), 1), ((0, 0), - 1)]"

definition y_plus_1 :: bipoly where
  "y_plus_1 = [((0, 1), 1), ((0, 0), 1)]"

definition y2_minus_1 :: bipoly where
  "y2_minus_1 = [((0, 2), 1), ((0, 0), - 1)]"

definition y2_plus_1 :: bipoly where
  "y2_plus_1 = [((0, 2), 1), ((0, 0), 1)]"

definition two_lines :: factorization where
  "two_lines = \<lparr>gvalue = y2_minus_1, gfactors = [(y_minus_1, 1), (y_plus_1, 1)]\<rparr>"

text \<open>
  The curve \<open>(y - 1)*(y - (1 + 2^-60))\<close>: two factors whose roots are closer to each
  other than two neighbouring numbers of 53 bits.
\<close>

definition near_1 :: complex where
  "near_1 = 1 + 1 / 2 ^ 60"

definition y_minus_near_1 :: bipoly where
  "y_minus_near_1 = [((0, 1), 1), ((0, 0), - near_1)]"

definition near_lines :: factorization where
  "near_lines =
     \<lparr>gvalue = [((0, 2), 1), ((0, 1), - (1 + near_1)), ((0, 0), near_1)],
      gfactors = [(y_minus_1, 1), (y_minus_near_1, 1)]\<rparr>"

definition conic :: factorization where
  "conic = \<lparr>gvalue = y2_plus_1, gfactors = [(y2_plus_1, 1)]\<rparr>"

text \<open>
  The interval of a real number in an interval field of \<open>p\<close> bits: its two neighbours
  among the numbers with \<open>p\<close> significant bits (the number itself when it is one of
  them). \<^verbatim>\<open>r.interval(CIF)\<close> of a rational number \<open>r\<close> is this rectangle.
\<close>

definition float_down :: "nat \<Rightarrow> real \<Rightarrow> real" where
  "float_down p x =
     (if x = 0 then 0
      else of_int \<lfloor>x * 2 powi (int p - 1 - \<lfloor>log 2 \<bar>x\<bar>\<rfloor>)\<rfloor> * 2 powi (\<lfloor>log 2 \<bar>x\<bar>\<rfloor> + 1 - int p))"

definition float_up :: "nat \<Rightarrow> real \<Rightarrow> real" where
  "float_up p x =
     (if x = 0 then 0
      else of_int \<lceil>x * 2 powi (int p - 1 - \<lfloor>log 2 \<bar>x\<bar>\<rfloor>)\<rceil> * 2 powi (\<lfloor>log 2 \<bar>x\<bar>\<rfloor> + 1 - int p))"

definition CIF_interval :: "nat \<Rightarrow> complex \<Rightarrow> box" where
  "CIF_interval p z =
     \<lparr>re_lo = float_down p (Re z), re_hi = float_up p (Re z),
      im_lo = float_down p (Im z), im_hi = float_up p (Im z)\<rparr>"

text \<open>
  A toy interval field with \<open>k = prec div 53\<close> binary digits: the interval of a number
  is the cell of the grid of mesh \<open>2^-k\<close> that holds it.
\<close>

definition dyadic_interval :: "nat \<Rightarrow> complex \<Rightarrow> box" where
  "dyadic_interval prec z =
     \<lparr>re_lo = of_int \<lfloor>Re z * 2 ^ (prec div 53)\<rfloor> / 2 ^ (prec div 53),
      re_hi = (of_int \<lfloor>Re z * 2 ^ (prec div 53)\<rfloor> + 1) / 2 ^ (prec div 53),
      im_lo = of_int \<lfloor>Im z * 2 ^ (prec div 53)\<rfloor> / 2 ^ (prec div 53),
      im_hi = (of_int \<lfloor>Im z * 2 ^ (prec div 53)\<rfloor> + 1) / 2 ^ (prec div 53)\<rparr>"

text \<open>
  Rounding to the nearest number with \<open>p\<close> significant bits, and the root finder of
  \<^verbatim>\<open>ComplexField(prec)\<close> on a fiber \<open>c0 + c1*y\<close>: the quotient \<open>-c0/c1\<close>,
  rounded. The examples ask it for no fiber of higher degree.
\<close>

definition float_round :: "nat \<Rightarrow> real \<Rightarrow> real" where
  "float_round p x =
     (if x = 0 then 0
      else of_int (round (x * 2 powi (int p - 1 - \<lfloor>log 2 \<bar>x\<bar>\<rfloor>)))
             * 2 powi (\<lfloor>log 2 \<bar>x\<bar>\<rfloor> + 1 - int p))"

definition CF_round :: "nat \<Rightarrow> complex \<Rightarrow> complex" where
  "CF_round p z = Complex (float_round p (Re z)) (float_round p (Im z))"

definition linear_CF_roots :: "nat \<Rightarrow> bipoly \<Rightarrow> complex \<Rightarrow> error + complex list" where
  "linear_CF_roots prec f x0 =
     (case subs_x f x0 of
        [c0] \<Rightarrow> if c0 = 0 then Inl PariError else Inr []
      | [c0, c1] \<Rightarrow>
          if c1 \<noteq> 0 then Inr [CF_round prec (- c0 / c1)]
          else if c0 = 0 then Inl PariError else Inr []
      | _ \<Rightarrow> Inr [])"

text \<open>
  A continuation library that answers \<open>r\<close> to every call, with the root finder above.
\<close>

definition toy_sirocco :: "real sample list option \<Rightarrow> sirocco" where
  "toy_sirocco r =
     \<lparr>contpath = (\<lambda>f x0 x1 y0a. r), contpath_comps = (\<lambda>f fs x0 x1 y0a. r),
      contpath_mp = (\<lambda>prec f x0 x1 y0a. r), contpath_mp_comps = (\<lambda>prec f fs x0 x1 y0a. r),
      CF_roots = linear_CF_roots\<rparr>"


definition parallel_pair :: "rat sample list list" where
  "parallel_pair = [[(0, 0, 0), (1, 0, 0)], [(0, 1, 1), (1, 1, 2)]]"

text \<open>The line \<open>3*y - x\<close> and the parabola \<open>y - x^2\<close>.\<close>

definition line3 :: bipoly where
  "line3 = [((0, 1), 3), ((1, 0), - 1)]"

definition parabola :: bipoly where
  "parabola = [((0, 1), 1), ((2, 0), - 1)]"

text \<open>An interval field so precise that every argument is its own enclosure.\<close>

definition exact_argument :: "nat \<Rightarrow> complex \<Rightarrow> complex \<Rightarrow> real \<times> real" where
  "exact_argument prec z w = (Arg (z / w), Arg (z / w))"

text \<open>
  The square with corners \<open>(\<plusminus>2, \<plusminus>2)\<close>, counterclockwise from \<open>(-2, -2)\<close>, and a
  closed walk that runs from \<open>(0, 0)\<close> to \<open>(2, 0)\<close>, back to \<open>(1, 0)\<close>, and around the
  unit square.
\<close>

definition square_circuit :: "unit edge list" where
  "square_circuit =
     [((- 2, - 2), (2, - 2), ()), ((2, - 2), (2, 2), ()),
      ((2, 2), (- 2, 2), ()), ((- 2, 2), (- 2, - 2), ())]"

definition spur_circuit :: "unit edge list" where
  "spur_circuit =
     [((0, 0), (2, 0), ()), ((2, 0), (1, 0), ()), ((1, 0), (1, 1), ()),
      ((1, 1), (0, 1), ()), ((0, 1), (0, 0), ())]"


section \<open>Properties\<close>

subsection \<open>Root isolation\<close>

lemma isolate_root_single:
  "isolate_root fuel N fx [r] 0 = Some (Inl (ValueError ''min() arg is an empty sequence''))"
  by (simp add: isolate_root_def)

text \<open>
  Claim C9 (as amended). When the fiber \<open>f(x0, y)\<close> has exactly one root,
  \<^verbatim>\<open>roots_interval\<close> raises \<^verbatim>\<open>ValueError\<close>: the minimum distance to the other
  roots is taken over an empty sequence. No one-entry interval map is returned, whatever
  the numeric collaborators do and however many loop iterations are allowed.
\<close>

theorem roots_interval_single_root_raises:
  assumes "roots N (subs_x f x0) = [r]"
  shows "roots_interval fuel N f x0 = Some (Inl (ValueError ''min() arg is an empty sequence''))"
  using assms by (simp add: roots_interval_def isolate_root_single)

text \<open>
  The fiber of \<open>y - x\<close> at \<open>x0 = 2\<close> is \<open>y - 2\<close>, with the single root \<open>2\<close>.
\<close>

theorem roots_interval_single_root_raises_witness:
  "roots \<lparr>roots = (\<lambda>fx. [2]), CF = (\<lambda>prec z. z), newton_in = (\<lambda>prec fx r b. True)\<rparr>
     (subs_x [((0, 1), 1), ((1, 0), - 1)] 2) = [2] \<and>
   roots_interval 7 \<lparr>roots = (\<lambda>fx. [2]), CF = (\<lambda>prec z. z), newton_in = (\<lambda>prec fx r b. True)\<rparr>
     [((0, 1), 1), ((1, 0), - 1)] 2
   = Some (Inl (ValueError ''min() arg is an empty sequence''))"
  using roots_interval_single_root_raises
    [of "\<lparr>roots = (\<lambda>fx. [2]), CF = (\<lambda>prec z. z), newton_in = (\<lambda>prec fx r b. True)\<rparr>"
        "[((0, 1), 1), ((1, 0), - 1)]" 2 2 7]
  by simp

text \<open>
  The claim as stated also says that success needs at least two roots. The fiber of
  \<open>x*y - 1\<close> at \<open>x0 = 0\<close> is the constant \<open>-1\<close>, which has no root: the \<^verbatim>\<open>for\<close>
  loop runs zero times and the empty map is returned.
\<close>

theorem roots_interval_no_root_succeeds:
  "subs_x [((1, 1), 1), ((0, 0), - 1)] 0 = [- 1, 0] \<and>
   roots_interval 0 \<lparr>roots = (\<lambda>fx. []), CF = (\<lambda>prec z. z), newton_in = (\<lambda>prec fx r b. True)\<rparr>
     [((1, 1), 1), ((0, 0), - 1)] 0
   = Some (Inr [])"
  by (simp add: roots_interval_def subs_x_def degree_y_def max_nat_list_def)

subsection \<open>Adaptive Voronoi decomposition\<close>

lemma map_of_fold_update:
  "map_of (fold (\<lambda>p m. AList.update (k p) p m) pts m0) site = Some p \<Longrightarrow>
   (p \<in> set pts \<and> k p = site) \<or> map_of m0 site = Some p"
proof (induction pts arbitrary: m0)
  case Nil
  then show ?case by simp
next
  case (Cons a pts)
  from Cons.IH [of "AList.update (k a) a m0"] Cons.prems
  show ?case by (auto simp: AList.update_conv' split: if_splits)
qed

lemma map_of_apprpoints:
  assumes "map_of (apprpoints C prec pts) site = Some p"
  shows "p \<in> set pts \<and> site = (RF C prec (fst p), RF C prec (snd p))"
  using map_of_fold_update [of "\<lambda>p. (RF C prec (fst p), RF C prec (snd p))" pts "[]" site p] assms
  by (auto simp: apprpoints_def)

lemma regions_valid_True:
  "regions_valid ap V = Inr True \<Longrightarrow> (site, reg) \<in> set V \<Longrightarrow> rays reg = [] \<Longrightarrow>
   \<exists>p. map_of ap site = Some p \<and> interior_contains reg p"
  by (induction ap V rule: regions_valid.induct) (auto split: if_splits option.splits)

lemma voronoi_loop_result:
  "voronoi_loop fuel C pts prec = Some (Inr (q, V)) \<Longrightarrow>
   \<exists>k<fuel. q = prec + 53 * k \<and> voronoi_attempt C pts q = Inr (True, V) \<and>
     (\<forall>j<k. \<exists>V'. voronoi_attempt C pts (prec + 53 * j) = Inr (False, V'))"
proof (induction fuel arbitrary: prec)
  case 0
  then show ?case by simp
next
  case (Suc fuel)
  show ?case
  proof (cases "voronoi_attempt C pts prec")
    case (Inl e)
    with Suc.prems show ?thesis by simp
  next
    case (Inr vV)
    obtain valid V0 where vV: "vV = (valid, V0)" by (cases vV)
    show ?thesis
    proof (cases valid)
      case True
      with Suc.prems Inr vV have "q = prec" "V = V0" by simp_all
      with Inr vV True show ?thesis by (intro exI [of _ 0]) simp
    next
      case False
      with Suc.prems Inr vV have "voronoi_loop fuel C pts (prec + 53) = Some (Inr (q, V))"
        by simp
      from Suc.IH [OF this] obtain k where k: "k < fuel" "q = prec + 53 + 53 * k"
        "voronoi_attempt C pts q = Inr (True, V)"
        "\<forall>j<k. \<exists>V'. voronoi_attempt C pts (prec + 53 + 53 * j) = Inr (False, V')"
        by blast
      have "\<exists>V'. voronoi_attempt C pts (prec + 53 * j) = Inr (False, V')" if "j < Suc k" for j
      proof (cases j)
        case 0
        with Inr vV False show ?thesis by simp
      next
        case (Suc j')
        with that k(4) have "\<exists>V'. voronoi_attempt C pts (prec + 53 + 53 * j') = Inr (False, V')"
          by simp
        with Suc show ?thesis by (simp add: algebra_simps)
      qed
      with k show ?thesis by (intro exI [of _ "Suc k"]) simp
    qed
  qed
qed

lemma voronoi_attempt_valid:
  assumes "voronoi_attempt C pts prec = Inr (True, V)" "(site, reg) \<in> set V" "rays reg = []"
  shows "\<exists>p \<in> set pts. site = (RF C prec (fst p), RF C prec (snd p)) \<and> interior_contains reg p"
proof -
  from assms(1) have "regions_valid (apprpoints C prec pts) V = Inr True"
    by (auto simp: voronoi_attempt_def Let_def split: sum.splits)
  from regions_valid_True [OF this assms(2,3)] map_of_apprpoints show ?thesis by blast
qed

text \<open>
  Claim C5. \<^verbatim>\<open>corrected_voronoi_diagram\<close> returns a diagram only when every region
  without rays contains in its interior the original, unrounded input point whose rounding
  (at the precision of that attempt) is the site of the region.
\<close>

theorem corrected_voronoi_diagram_bounded_cells:
  assumes "corrected_voronoi_diagram fuel C points = Some (Inr V)"
  shows "\<exists>prec. \<forall>(site, reg) \<in> set V. rays reg = [] \<longrightarrow>
           (\<exists>z \<in> set points. site = (RF C prec (Re z), RF C prec (Im z)) \<and>
              interior_contains reg (Re z, Im z))"
proof -
  from assms obtain q where "voronoi_loop fuel C (map (\<lambda>p. (Re p, Im p)) points) 53 = Some (Inr (q, V))"
    by (auto simp: corrected_voronoi_diagram_def Let_def split: option.splits sum.splits)
  from voronoi_loop_result [OF this]
  have "voronoi_attempt C (map (\<lambda>p. (Re p, Im p)) points) q = Inr (True, V)" by blast
  from voronoi_attempt_valid [OF this] show ?thesis
    by (intro exI [of _ q]) fastforce
qed

text \<open>
  Two branch points \<open>3/8\<close> and \<open>5/8\<close> under the toy rounding: one binary digit sends
  them to \<open>0\<close> and \<open>1/2\<close>, two digits to \<open>1/4\<close> and \<open>1/2\<close>, three digits are exact.
\<close>

lemma toy_apprpoints_53:
  "apprpoints toy_geometry 53 [(3/8, 0), (5/8, 0)] = [((0, 0), (3/8, 0)), ((1/2, 0), (5/8, 0))]"
  by (simp add: apprpoints_def toy_geometry_def dyadic_RF_def)

lemma toy_apprpoints_106:
  "apprpoints toy_geometry 106 [(3/8, 0), (5/8, 0)] = [((1/4, 0), (3/8, 0)), ((1/2, 0), (5/8, 0))]"
  by (simp add: apprpoints_def toy_geometry_def dyadic_RF_def)

lemma toy_apprpoints_159:
  "apprpoints toy_geometry 159 [(3/8, 0), (5/8, 0)] = [((3/8, 0), (3/8, 0)), ((5/8, 0), (5/8, 0))]"
  by (simp add: apprpoints_def toy_geometry_def dyadic_RF_def)

lemma toy_regions_53:
  "regions_valid [((0, 0), (3/8, 0)), ((1/2, 0), (5/8, 0))]
     (nearest_site_diagram [(0,0),(1/2,0),(5/2,0),(-(5/2),0),(0,5/2),(0,-(5/2))]) = Inr False"
  by (simp add: nearest_site_diagram_def sqdist_def power2_eq_square of_rat_divide of_rat_minus)

lemma toy_regions_106:
  "regions_valid [((1/4, 0), (3/8, 0)), ((1/2, 0), (5/8, 0))]
     (nearest_site_diagram [(1/4,0),(1/2,0),(5/2,0),(-(5/2),0),(0,5/2),(0,-(5/2))]) = Inr False"
  by (simp add: nearest_site_diagram_def sqdist_def power2_eq_square of_rat_divide of_rat_minus)

lemma toy_regions_159:
  "regions_valid [((3/8, 0), (3/8, 0)), ((5/8, 0), (5/8, 0))]
     (nearest_site_diagram [(3/8,0),(5/8,0),(23/8,0),(-(23/8),0),(0,23/8),(0,-(23/8))]) = Inr True"
  by (simp add: nearest_site_diagram_def sqdist_def power2_eq_square of_rat_divide of_rat_minus)

lemma toy_attempt_53:
  "voronoi_attempt toy_geometry [(3/8, 0), (5/8, 0)] 53
   = Inr (False, nearest_site_diagram [(0,0),(1/2,0),(5/2,0),(-(5/2),0),(0,5/2),(0,-(5/2))])"
  unfolding voronoi_attempt_def toy_apprpoints_53
  by (simp add: added_points_def configuration_def toy_geometry_def toy_regions_53)

lemma toy_attempt_106:
  "voronoi_attempt toy_geometry [(3/8, 0), (5/8, 0)] 106
   = Inr (False, nearest_site_diagram [(1/4,0),(1/2,0),(5/2,0),(-(5/2),0),(0,5/2),(0,-(5/2))])"
  unfolding voronoi_attempt_def toy_apprpoints_106
  by (simp add: added_points_def configuration_def toy_geometry_def toy_regions_106)

lemma toy_attempt_159:
  "voronoi_attempt toy_geometry [(3/8, 0), (5/8, 0)] 159
   = Inr (True, nearest_site_diagram [(3/8,0),(5/8,0),(23/8,0),(-(23/8),0),(0,23/8),(0,-(23/8))])"
  unfolding voronoi_attempt_def toy_apprpoints_159
  by (simp add: added_points_def configuration_def toy_geometry_def toy_regions_159)

lemma toy_voronoi_loop:
  "voronoi_loop 3 toy_geometry [(3/8, 0), (5/8, 0)] 53
   = Some (Inr (159, nearest_site_diagram [(3/8,0),(5/8,0),(23/8,0),(-(23/8),0),(0,23/8),(0,-(23/8))]))"
  by (simp add: numeral_3_eq_3 toy_attempt_53 toy_attempt_106 toy_attempt_159)

lemma toy_corrected_voronoi_diagram:
  "corrected_voronoi_diagram 3 toy_geometry [3/8, 5/8]
   = Some (Inr (nearest_site_diagram [(3/8,0),(5/8,0),(23/8,0),(-(23/8),0),(0,23/8),(0,-(23/8))]))"
  by (simp add: corrected_voronoi_diagram_def toy_voronoi_loop)

theorem corrected_voronoi_diagram_bounded_cells_witness:
  "corrected_voronoi_diagram 3 toy_geometry [3/8, 5/8]
     = Some (Inr (nearest_site_diagram [(3/8,0),(5/8,0),(23/8,0),(-(23/8),0),(0,23/8),(0,-(23/8))])) \<and>
   (\<exists>prec. \<forall>(site, reg) \<in> set (nearest_site_diagram
                [(3/8,0),(5/8,0),(23/8,0),(-(23/8),0),(0,23/8),(0,-(23/8))]).
        rays reg = [] \<longrightarrow>
          (\<exists>z \<in> set [3/8, 5/8]. site = (RF toy_geometry prec (Re z), RF toy_geometry prec (Im z)) \<and>
             interior_contains reg (Re z, Im z)))"
  using corrected_voronoi_diagram_bounded_cells [OF toy_corrected_voronoi_diagram]
    toy_corrected_voronoi_diagram
  by blast

subsection \<open>Precision escalation\<close>

lemma isolate_loop_result:
  "isolate_loop fuel N fx others r prec divisor = Some (q, b) \<Longrightarrow>
   \<exists>k<fuel. q = prec + 53 * k \<and> b = envelop_at r (diam_of N q others r (divisor * 2 ^ k)) \<and>
     newton_in N q fx r b \<and>
     (\<forall>j<k. \<not> newton_in N (prec + 53 * j) fx r
               (envelop_at r (diam_of N (prec + 53 * j) others r (divisor * 2 ^ j))))"
proof (induction fuel arbitrary: prec divisor)
  case 0
  then show ?case by simp
next
  case (Suc fuel)
  let ?e = "envelop_at r (diam_of N prec others r divisor)"
  show ?case
  proof (cases "newton_in N prec fx r ?e")
    case True
    with Suc.prems have "q = prec" "b = ?e" by (auto simp: Let_def)
    with True show ?thesis by (intro exI [of _ 0]) auto
  next
    case False
    with Suc.prems have "isolate_loop fuel N fx others r (prec + 53) (divisor * 2) = Some (q, b)"
      by (simp add: Let_def)
    from Suc.IH [OF this] obtain k where k: "k < fuel" "q = prec + 53 + 53 * k"
      "b = envelop_at r (diam_of N q others r (divisor * 2 * 2 ^ k))"
      "newton_in N q fx r b"
      "\<forall>j<k. \<not> newton_in N (prec + 53 + 53 * j) fx r
               (envelop_at r (diam_of N (prec + 53 + 53 * j) others r (divisor * 2 * 2 ^ j)))"
      by blast
    have "\<not> newton_in N (prec + 53 * j) fx r
               (envelop_at r (diam_of N (prec + 53 * j) others r (divisor * 2 ^ j)))"
      if "j < Suc k" for j
    proof (cases j)
      case 0
      with False show ?thesis by simp
    next
      case (Suc j')
      with that k(5) have "\<not> newton_in N (prec + 53 + 53 * j') fx r
               (envelop_at r (diam_of N (prec + 53 + 53 * j') others r (divisor * 2 * 2 ^ j')))"
        by simp
      with Suc show ?thesis by (simp add: algebra_simps)
    qed
    with k(1-4) show ?thesis by (intro exI [of _ "Suc k"]) (simp add: algebra_simps)
  qed
qed

lemma toy_isolate_loop:
  "isolate_loop 3 (toy_numerics toy_roots 159) [- 1, 0, 1] [1] (- 1) 53 4
   = Some (159, envelop_at (- 1) (1 / 8))"
  by (simp add: numeral_3_eq_3 toy_numerics_def diam_of_def)

text \<open>
  Claim C2 (as amended). A retry of the root-isolation loop and of the Voronoi loop runs
  at 53 bits more than the failed attempt: a run that returns has made its attempts at
  \<open>prec\<close>, \<open>prec + 53\<close>, \<open>prec + 106\<close>, ... and each attempt before the last one failed.
  In root isolation it is the divisor of the radius that doubles with each retry.
\<close>

theorem precision_escalation_adds_53:
  "(isolate_loop fuel N fx others r prec divisor = Some (q, b) \<longrightarrow>
      (\<exists>k<fuel. q = prec + 53 * k \<and> b = envelop_at r (diam_of N q others r (divisor * 2 ^ k)) \<and>
         newton_in N q fx r b \<and>
         (\<forall>j<k. \<not> newton_in N (prec + 53 * j) fx r
                   (envelop_at r (diam_of N (prec + 53 * j) others r (divisor * 2 ^ j)))))) \<and>
   (voronoi_loop fuel' C pts prec' = Some (Inr (q', V)) \<longrightarrow>
      (\<exists>k<fuel'. q' = prec' + 53 * k \<and> voronoi_attempt C pts q' = Inr (True, V) \<and>
         (\<forall>j<k. \<exists>V'. voronoi_attempt C pts (prec' + 53 * j) = Inr (False, V'))))"
  using isolate_loop_result voronoi_loop_result by blast

theorem precision_escalation_adds_53_witness:
  "isolate_loop 3 (toy_numerics toy_roots 159) [- 1, 0, 1] [1] (- 1) 53 4
     = Some (159, envelop_at (- 1) (1 / 8)) \<and>
   voronoi_loop 3 toy_geometry [(3/8, 0), (5/8, 0)] 53
     = Some (Inr (159, nearest_site_diagram
         [(3/8,0),(5/8,0),(23/8,0),(-(23/8),0),(0,23/8),(0,-(23/8))])) \<and>
   (\<exists>k<3. (159::nat) = 53 + 53 * k \<and>
      envelop_at (- 1) (1 / 8)
        = envelop_at (- 1) (diam_of (toy_numerics toy_roots 159) 159 [1] (- 1) (4 * 2 ^ k))) \<and>
   (\<exists>k<3. (159::nat) = 53 + 53 * k \<and>
      (\<forall>j<k. \<exists>V'. voronoi_attempt toy_geometry [(3/8, 0), (5/8, 0)] (53 + 53 * j) = Inr (False, V')))"
  using precision_escalation_adds_53
    [of 3 "toy_numerics toy_roots 159" "[- 1, 0, 1]" "[1]" "- 1" 53 4 159 "envelop_at (- 1) (1 / 8)"
        3 toy_geometry "[(3/8, 0), (5/8, 0)]" 53 159
        "nearest_site_diagram [(3/8,0),(5/8,0),(23/8,0),(-(23/8),0),(0,23/8),(0,-(23/8))]"]
    toy_isolate_loop toy_voronoi_loop
  by blast

text \<open>
  The claim as stated says the next precision is double the failed one. After the failed
  attempts at 53 and at 106 bits the third attempt runs at 159 bits, not at 212.
\<close>

theorem precision_not_doubled:
  "\<not> newton_in (toy_numerics toy_roots 159) 106 [- 1, 0, 1] (- 1)
       (envelop_at (- 1) (diam_of (toy_numerics toy_roots 159) 106 [1] (- 1) 8)) \<and>
   isolate_loop 3 (toy_numerics toy_roots 159) [- 1, 0, 1] [1] (- 1) 53 4
     = Some (159, envelop_at (- 1) (1 / 8)) \<and>
   voronoi_attempt toy_geometry [(3/8, 0), (5/8, 0)] 106
     = Inr (False, nearest_site_diagram [(1/4,0),(1/2,0),(5/2,0),(-(5/2),0),(0,5/2),(0,-(5/2))]) \<and>
   voronoi_loop 3 toy_geometry [(3/8, 0), (5/8, 0)] 53
     = Some (Inr (159, nearest_site_diagram
         [(3/8,0),(5/8,0),(23/8,0),(-(23/8),0),(0,23/8),(0,-(23/8))])) \<and>
   (159::nat) \<noteq> 2 * 106"
  using toy_isolate_loop toy_attempt_106 toy_voronoi_loop
  by (simp add: toy_numerics_def)

subsection \<open>Braid extraction\<close>






































lemma parallel_pair_braid: "braid_from_piecewise parallel_pair = Inr \<lparr>strands = 2, word = []\<rparr>"
  by code_simp



subsection \<open>Homotopy continuation\<close>

lemma max_nat_list_Max: "max_nat_list ns = Max (set (0 # ns))"
  unfolding max_nat_list_def by (simp only: Max.set_eq_fold)

lemma max_nat_list_ge: "n \<in> set ns \<Longrightarrow> n \<le> max_nat_list ns"
  by (simp add: max_nat_list_Max)

lemma max_nat_list_pos_in: "0 < max_nat_list ns \<Longrightarrow> max_nat_list ns \<in> set ns"
proof -
  assume pos: "0 < max_nat_list ns"
  have "Max (set (0 # ns)) \<in> set (0 # ns)" by (intro Max_in) simp_all
  with pos show ?thesis by (auto simp: max_nat_list_Max)
qed


lemma sum_list_single_key:
  "distinct (map fst f) \<Longrightarrow>
   sum_list (map (\<lambda>(m, c). if m = k then c else 0) f)
     = (case map_of f k of None \<Rightarrow> 0 | Some c \<Rightarrow> (c::complex))"
proof (induction f)
  case Nil
  then show ?case by simp
next
  case (Cons a f)
  obtain m c where a: "a = (m, c)" by (cases a)
  show ?case
  proof (cases "m = k")
    case True
    with Cons.prems a have "map_of f k = None" by (auto simp: map_of_eq_None_iff)
    with Cons a True show ?thesis by simp
  next
    case False
    with Cons a show ?thesis by simp
  qed
qed

lemma subs_x_degree1:
  assumes "degree f = 1" "degree_y f = 1"
  shows "subs_x f x0 =
    [sum_list (map (\<lambda>((i, j), c). if j = 0 then c * x0 ^ i else 0) f),
     sum_list (map (\<lambda>(m, c). if m = (0, 1) then c else 0) f)]"
proof -
  have le: "i + j \<le> 1" if "((i, j), c) \<in> set f" for i j c
  proof -
    from that have "i + j \<in> set (map (\<lambda>((i, j), c). i + j) f)" by force
    from max_nat_list_ge [OF this] assms(1) show ?thesis by (simp add: degree_def)
  qed
  have "(\<lambda>((i, j), c). if j = 1 then c * x0 ^ i else 0) mc = (\<lambda>(m, c). if m = (0, 1) then c else 0) mc"
    if "mc \<in> set f" for mc
  proof -
    obtain i j c where mc: "mc = ((i, j), c)" by (cases mc) auto
    with that le [of i j c] show ?thesis by auto
  qed
  then have "sum_list (map (\<lambda>((i, j), c). if j = 1 then c * x0 ^ i else 0) f)
      = sum_list (map (\<lambda>(m, c). if m = (0, 1) then c else 0) f)"
    by (intro arg_cong [where f = sum_list] map_cong refl)
  with assms(2) show ?thesis by (simp add: subs_x_def)
qed

lemma coeff_y_nonzero:
  assumes "wf_bipoly f" "degree f = 1" "degree_y f = 1"
  shows "sum_list (map (\<lambda>(m, c). if m = (0, 1) then c else 0) f) \<noteq> 0"
proof -
  from assms(3) have "max_nat_list (map (\<lambda>((i, j), c). j) f) \<in> set (map (\<lambda>((i, j), c). j) f)"
    by (intro max_nat_list_pos_in) (simp add: degree_y_def)
  with assms(3) obtain i c where ic: "((i, 1), c) \<in> set f" by (auto simp: degree_y_def)
  then have "i + 1 \<in> set (map (\<lambda>((i, j), c). i + j) f)" by force
  from max_nat_list_ge [OF this] assms(2) have "i = 0" by (simp add: degree_def)
  with ic assms(1) have "map_of f (0, 1) = Some c" "c \<noteq> 0"
    by (auto simp: wf_bipoly_def list_all_iff)
  with assms(1) show ?thesis by (simp add: sum_list_single_key wf_bipoly_def)
qed

lemma eval_bipoly_degree1:
  assumes "degree f = 1" "degree_y f = 1"
  shows "eval_bipoly f x y = subs_x f x ! 0 + subs_x f x ! 1 * y"
proof -
  have le: "i + j \<le> 1" if "((i, j), c) \<in> set f" for i j c
  proof -
    from that have "i + j \<in> set (map (\<lambda>((i, j), c). i + j) f)" by force
    from max_nat_list_ge [OF this] assms(1) show ?thesis by (simp add: degree_def)
  qed
  have *: "(\<lambda>((i, j), c). c * x ^ i * y ^ j) mc
      = (\<lambda>((i, j), c). if j = 0 then c * x ^ i else 0) mc
        + (\<lambda>(m, c). if m = (0, 1) then c else 0) mc * y"
    if "mc \<in> set f" for mc
  proof -
    obtain i j c where mc: "mc = ((i, j), c)" by (cases mc) auto
    from that le [of i j c] mc have "j = 0 \<or> (i = 0 \<and> j = 1)" by auto
    with mc show ?thesis by auto
  qed
  have "eval_bipoly f x y
      = sum_list (map (\<lambda>mc. (\<lambda>((i, j), c). if j = 0 then c * x ^ i else 0) mc
               + (\<lambda>(m, c). if m = (0, 1) then c else 0) mc * y) f)"
    unfolding eval_bipoly_def using * by (intro arg_cong [where f = sum_list] map_cong) auto
  also have "\<dots> = sum_list (map (\<lambda>((i, j), c). if j = 0 then c * x ^ i else 0) f)
      + sum_list (map (\<lambda>(m, c). if m = (0, 1) then c else 0) f) * y"
    by (simp add: sum_list_addf sum_list_mult_const)
  finally show ?thesis by (simp add: subs_x_degree1 [OF assms])
qed

lemma linear_fiber:
  assumes "wf_bipoly f" "degree f = 1" "degree_y f = 1"
  shows "\<exists>c0 c1. subs_x f x = [c0, c1] \<and> c1 \<noteq> 0 \<and> (\<forall>y. eval_bipoly f x y = 0 \<longleftrightarrow> y = - c0 / c1)"
proof -
  let ?c1 = "sum_list (map (\<lambda>(m, c). if m = (0, 1) then c else 0) f)"
  have c1: "?c1 \<noteq> 0" by (rule coeff_y_nonzero [OF assms])
  obtain c0 where sx: "subs_x f x = [c0, ?c1]" using subs_x_degree1 [OF assms(2,3)] by blast
  have "eval_bipoly f x y = c0 + ?c1 * y" for y
    using eval_bipoly_degree1 [OF assms(2,3), of x y] by (simp add: sx)
  with c1 have "\<forall>y. eval_bipoly f x y = 0 \<longleftrightarrow> y = - c0 / ?c1"
    by (simp add: field_simps add_eq_0_iff)
  with sx c1 show ?thesis by (intro exI [of _ c0] exI [of _ ?c1] conjI)
qed

text \<open>
  Claim C3 (as amended). For every polynomial of total degree 1 in which \<open>y\<close> occurs
  (\<open>f = a*x + b*y + c\<close> with \<open>b \<noteq> 0\<close>), \<^verbatim>\<open>followstrand\<close> takes the linear
  branch, whatever the continuation library does and with no retry: each of the two
  fibers has a unique root, the root finder of \<^verbatim>\<open>ComplexField(prec)\<close> is asked for the
  roots of the two fibers, and the result is exactly the two-point polyline
  \<open>[(0, Re y0, Im y0), (1, Re y1, Im y1)]\<close> of the two floating-point numbers \<open>y0\<close>,
  \<open>y1\<close> it returns.
\<close>

theorem followstrand_total_degree_one:
  assumes "wf_bipoly f" "degree f = 1" "degree_y f = 1" "solves_linear S"
  shows "\<exists>y0 y1.
           followstrand fuel S f factors x0 x1 y0a prec
             = Some (Inr [(0, Re y0, Im y0), (1, Re y1, Im y1)]) \<and>
           CF_roots S prec f x0 = Inr [y0] \<and> CF_roots S prec f x1 = Inr [y1] \<and>
           (\<exists>!y. eval_bipoly f x0 y = 0) \<and> (\<exists>!y. eval_bipoly f x1 y = 0)"
proof -
  from linear_fiber [OF assms(1-3), of x0] obtain a0 a1 where
    f0: "subs_x f x0 = [a0, a1]" "a1 \<noteq> 0" "\<And>y. eval_bipoly f x0 y = 0 \<longleftrightarrow> y = - a0 / a1"
    by blast
  from linear_fiber [OF assms(1-3), of x1] obtain b0 b1 where
    f1: "subs_x f x1 = [b0, b1]" "b1 \<noteq> 0" "\<And>y. eval_bipoly f x1 y = 0 \<longleftrightarrow> y = - b0 / b1"
    by blast
  from assms(4) f0(1,2) obtain y0 where y0: "CF_roots S prec f x0 = Inr [y0]"
    unfolding solves_linear_def by blast
  from assms(4) f1(1,2) obtain y1 where y1: "CF_roots S prec f x1 = Inr [y1]"
    unfolding solves_linear_def by blast
  have "followstrand fuel S f factors x0 x1 y0a prec
      = Some (Inr [(0, Re y0, Im y0), (1, Re y1, Im y1)])"
    using assms(2) y0 y1
    by (subst followstrand.simps) (simp add: followstrand_linear_def first_root_def)
  moreover have "\<exists>!y. eval_bipoly f x0 y = 0" by (simp add: f0(3))
  moreover have "\<exists>!y. eval_bipoly f x1 y = 0" by (simp add: f1(3))
  ultimately show ?thesis using y0 y1 by blast
qed

text \<open>
  The line \<open>3*y - x\<close> from \<open>x0 = 1\<close> to \<open>x1 = 2\<close> at 53 bits: the roots \<open>1/3\<close> and
  \<open>2/3\<close> come back rounded.
\<close>

lemma toy_solves_linear: "solves_linear (toy_sirocco r)"
  by (simp add: solves_linear_def toy_sirocco_def linear_CF_roots_def)

lemma line3_wf: "wf_bipoly line3"
  by (simp add: wf_bipoly_def line3_def)

lemma line3_degree: "degree line3 = 1"
  by (simp add: degree_def max_nat_list_def line3_def)

lemma line3_degree_y: "degree_y line3 = 1"
  by (simp add: degree_y_def max_nat_list_def line3_def)

lemma line3_subs_x: "subs_x line3 x = [- x, 3]"
  unfolding subs_x_def line3_degree_y by (simp add: upt_rec line3_def)

lemma floor_log2_third: "\<lfloor>log 2 (1/3)\<rfloor> = - 2" "\<lfloor>log 2 (2/3)\<rfloor> = - 1"
  by (simp_all add: floor_log_eq_powr_iff powr_minus)

lemma float_round_third: "float_round 53 (1/3) = 6004799503160661 / 2 ^ 54"
  "float_round 53 (2/3) = 6004799503160661 / 2 ^ 53"
  by (simp_all add: float_round_def floor_log2_third power_int_def round_def field_simps)

lemma float_round_0: "float_round p 0 = 0"
  by (simp add: float_round_def)

lemma line3_roots:
  "CF_roots (toy_sirocco r) 53 line3 1 = Inr [complex_of_real (6004799503160661 / 2 ^ 54)]"
  "CF_roots (toy_sirocco r) 53 line3 2 = Inr [complex_of_real (6004799503160661 / 2 ^ 53)]"
  by (simp_all add: toy_sirocco_def linear_CF_roots_def line3_subs_x CF_round_def
        float_round_third float_round_0 complex_eq_iff)

lemma line3_followstrand:
  "followstrand 0 (toy_sirocco None) line3 [] 1 2 0 53
   = Some (Inr [(0, 6004799503160661 / 2 ^ 54, 0), (1, 6004799503160661 / 2 ^ 53, 0)])"
  using line3_degree
  by (subst followstrand.simps) (simp add: followstrand_linear_def first_root_def line3_roots)

theorem followstrand_total_degree_one_witness:
  "wf_bipoly line3 \<and> degree line3 = 1 \<and> degree_y line3 = 1 \<and>
   solves_linear (toy_sirocco None) \<and>
   followstrand 0 (toy_sirocco None) line3 [] 1 2 0 53
     = Some (Inr [(0, 6004799503160661 / 2 ^ 54, 0), (1, 6004799503160661 / 2 ^ 53, 0)]) \<and>
   (\<exists>y0 y1.
      followstrand 0 (toy_sirocco None) line3 [] 1 2 0 53
        = Some (Inr [(0, Re y0, Im y0), (1, Re y1, Im y1)]) \<and>
      CF_roots (toy_sirocco None) 53 line3 1 = Inr [y0] \<and>
      CF_roots (toy_sirocco None) 53 line3 2 = Inr [y1] \<and>
      (\<exists>!y. eval_bipoly line3 1 y = 0) \<and> (\<exists>!y. eval_bipoly line3 2 y = 0))"
  using followstrand_total_degree_one [OF line3_wf line3_degree line3_degree_y toy_solves_linear,
      of 0 None "[]" 1 2 0 53]
    line3_wf line3_degree line3_degree_y toy_solves_linear line3_followstrand
  by blast

lemma parabola_degree: "degree parabola = 2"
  by (simp add: degree_def max_nat_list_def parabola_def)

lemma parabola_degree_y: "degree_y parabola = 1"
  by (simp add: degree_y_def max_nat_list_def parabola_def)

lemma line3_not_exact:
  "eval_bipoly line3 1 (complex_of_real (6004799503160661 / 2 ^ 54)) \<noteq> 0"
  "eval_bipoly line3 1 (1/3) = 0"
  by (simp_all add: eval_bipoly_def line3_def complex_eq_iff)

lemma followstrand_always_failing:
  "degree f \<noteq> 1 \<Longrightarrow> followstrand fuel (toy_sirocco None) f factors x0 x1 y0a prec = None"
proof (induction fuel arbitrary: prec)
  case 0
  then show ?case by (subst followstrand.simps) simp
next
  case (Suc fuel)
  have "continuation (toy_sirocco None) f factors x0 x1 y0a prec = None"
    by (simp add: continuation_def toy_sirocco_def)
  with Suc show ?case by (subst followstrand.simps) simp
qed

lemma followstrand_first_answer:
  "degree f \<noteq> 1 \<Longrightarrow>
   followstrand (Suc fuel) (toy_sirocco (Some p)) f factors x0 x1 y0a prec = Some (Inr p)"
proof -
  assume d: "degree f \<noteq> 1"
  have "continuation (toy_sirocco (Some p)) f factors x0 x1 y0a prec = Some p"
    by (simp add: continuation_def toy_sirocco_def)
  with d show ?thesis by (subst followstrand.simps) simp
qed

text \<open>
  The claim as stated takes the degree in \<open>y\<close> and returns the roots themselves. The
  test of the source is \<^verbatim>\<open>f.degree() == 1\<close>, the total degree: \<open>y - x^2\<close> has
  degree 1 in \<open>y\<close> and total degree 2, and goes to the continuation library; its root
  \<open>y = x^2\<close> along the segment from 0 to 1 comes back as whatever polyline the library
  certifies (here three samples), and a library that keeps failing is retried without
  end. And the linear branch computes in \<^verbatim>\<open>ComplexField(prec)\<close>: for \<open>3*y - x\<close> at
  \<open>x0 = 1\<close> it returns the 53-bit number nearest to \<open>1/3\<close>, which is not a root of the
  fiber.
\<close>

theorem followstrand_linear_branch_differs:
  "degree_y parabola = 1 \<and> degree parabola = 2 \<and>
   followstrand 1 (toy_sirocco (Some [(0, 0, 0), (1/2, 1/4, 0), (1, 1, 0)])) parabola [] 0 1 0 53
     = Some (Inr [(0, 0, 0), (1/2, 1/4, 0), (1, 1, 0)]) \<and>
   followstrand 5 (toy_sirocco None) parabola [] 0 1 0 53 = None \<and>
   degree_y line3 = 1 \<and> degree line3 = 1 \<and>
   followstrand 0 (toy_sirocco None) line3 [] 1 2 0 53
     = Some (Inr [(0, 6004799503160661 / 2 ^ 54, 0), (1, 6004799503160661 / 2 ^ 53, 0)]) \<and>
   eval_bipoly line3 1 (complex_of_real (6004799503160661 / 2 ^ 54)) \<noteq> 0 \<and>
   eval_bipoly line3 1 (1/3) = 0"
proof -
  have d: "degree parabola \<noteq> 1" using parabola_degree by simp
  show ?thesis
    using followstrand_first_answer [OF d, of 0] followstrand_always_failing [OF d, of 5]
      parabola_degree parabola_degree_y line3_degree line3_degree_y line3_followstrand
      line3_not_exact
    by simp
qed

subsection \<open>Isolating intervals\<close>

lemma set_update_subset: "set (AList.update k v al) \<subseteq> insert (k, v) (set al)"
  by (induction al) auto

lemma isolate_all_entries:
  "isolate_all fuel N fx rts is acc = Some (Inr m) \<Longrightarrow> (k, b) \<in> set m \<Longrightarrow>
   (k, b) \<in> set acc \<or> (\<exists>i \<in> set is. isolate_root fuel N fx rts i = Some (Inr (k, b)))"
proof (induction "is" arbitrary: acc)
  case Nil
  then show ?case by simp
next
  case (Cons i "is")
  from Cons.prems(1) obtain k' b' where r: "isolate_root fuel N fx rts i = Some (Inr (k', b'))"
    and rest: "isolate_all fuel N fx rts is (AList.update k' b' acc) = Some (Inr m)"
    by (auto split: option.splits sum.splits)
  from Cons.IH [OF rest Cons.prems(2)] consider
    "(k, b) \<in> set (AList.update k' b' acc)"
    | "\<exists>i \<in> set is. isolate_root fuel N fx rts i = Some (Inr (k, b))" by blast
  then show ?case
  proof cases
    case 1
    with set_update_subset [of k' b' acc] have "(k, b) = (k', b') \<or> (k, b) \<in> set acc" by auto
    with r show ?thesis by auto
  next
    case 2
    then show ?thesis by auto
  qed
qed

lemma min_list_le: "x \<in> set xs \<Longrightarrow> min_list xs \<le> (x::real)"
  by (cases "xs = []") (simp_all add: min_list_Min)

lemma min_list_nonneg: "xs \<noteq> [] \<Longrightarrow> \<forall>x \<in> set xs. 0 \<le> x \<Longrightarrow> 0 \<le> min_list (xs::real list)"
  by (simp add: min_list_Min)

lemma nth_in_others:
  assumes "j < length rts" "j \<noteq> i"
  shows "rts ! j \<in> set (take i rts @ drop (Suc i) rts)"
proof (cases "j < i")
  case True
  with assms(1) have "rts ! j = take i rts ! j" "j < length (take i rts)" by simp_all
  then show ?thesis by (metis UnI1 nth_mem set_append)
next
  case False
  with assms have j: "Suc i \<le> j" by simp
  with assms(1) have "rts ! j = drop (Suc i) rts ! (j - Suc i)" "j - Suc i < length (drop (Suc i) rts)"
    by simp_all
  then show ?thesis by (metis UnI2 nth_mem set_append)
qed

lemma isolate_root_shape:
  assumes "isolate_root fuel N fx rts i = Some (Inr (k, b))"
  shows "\<exists>q d. b = envelop_at (rts ! i) d \<and> k = CF N q (rts ! i) \<and> 0 \<le> d \<and>
           (\<forall>j < length rts. j \<noteq> i \<longrightarrow> d \<le> cmod (CF N q (rts ! i) - CF N q (rts ! j)) / 4)"
proof -
  let ?others = "take i rts @ drop (Suc i) rts"
  from assms have ne: "?others \<noteq> []"
    by (auto simp: isolate_root_def Let_def split: if_splits)
  from assms ne obtain q where loop: "isolate_loop fuel N fx ?others (rts ! i) 53 4 = Some (q, b)"
    and k: "k = CF N q (rts ! i)"
    by (auto simp: isolate_root_def Let_def split: if_splits option.splits)
  from isolate_loop_result [OF loop] obtain n where
    b: "b = envelop_at (rts ! i) (diam_of N q ?others (rts ! i) (4 * 2 ^ n))" by blast
  let ?ds = "map (\<lambda>r0. cmod (CF N q (rts ! i) - CF N q r0)) ?others"
  let ?d = "diam_of N q ?others (rts ! i) (4 * 2 ^ n)"
  have d: "?d = min_list ?ds / (4 * 2 ^ n)" by (simp add: diam_of_def)
  from ne have "0 \<le> min_list ?ds" by (intro min_list_nonneg) auto
  then have nonneg: "0 \<le> ?d" unfolding d by simp
  have bound: "?d \<le> cmod (CF N q (rts ! i) - CF N q (rts ! j)) / 4" if "j < length rts" "j \<noteq> i" for j
  proof -
    from nth_in_others [OF that] have "cmod (CF N q (rts ! i) - CF N q (rts ! j)) \<in> set ?ds"
      by (simp add: image_iff) blast
    then have le: "min_list ?ds \<le> cmod (CF N q (rts ! i) - CF N q (rts ! j))" by (rule min_list_le)
    have "(1::real) \<le> 2 ^ n" by simp
    then have "min_list ?ds / (4 * 2 ^ n) \<le> min_list ?ds / 4"
      using \<open>0 \<le> min_list ?ds\<close> by (intro divide_left_mono) simp_all
    also have "\<dots> \<le> cmod (CF N q (rts ! i) - CF N q (rts ! j)) / 4" using le by simp
    finally show ?thesis unfolding d .
  qed
  from b k nonneg bound show ?thesis by blast
qed

lemma squares_apart:
  assumes ov: "overlaps (envelop_at a d1) (envelop_at b d2)"
    and d1: "0 \<le> d1" "d1 < sqrt 2 * cmod (a - b) / 4"
    and d2: "0 \<le> d2" "d2 < sqrt 2 * cmod (a - b) / 4"
  shows False
proof -
  let ?D = "d1 + d2"
  from ov have re: "\<bar>Re (a - b)\<bar> \<le> ?D" and im: "\<bar>Im (a - b)\<bar> \<le> ?D"
    by (auto simp: overlaps_def envelop_at_def)
  from d1 d2 have D0: "0 \<le> ?D" by simp
  from re D0 have re2: "(Re (a - b))\<^sup>2 \<le> ?D\<^sup>2" by (metis abs_le_square_iff abs_of_nonneg)
  from im D0 have im2: "(Im (a - b))\<^sup>2 \<le> ?D\<^sup>2" by (metis abs_le_square_iff abs_of_nonneg)
  have "(cmod (a - b))\<^sup>2 = (Re (a - b))\<^sup>2 + (Im (a - b))\<^sup>2" by (rule cmod_power2)
  with re2 im2 have c: "(cmod (a - b))\<^sup>2 \<le> 2 * ?D\<^sup>2" by simp
  from d1 d2 have "?D < sqrt 2 * cmod (a - b) / 2" by simp
  with D0 have "?D\<^sup>2 < (sqrt 2 * cmod (a - b) / 2)\<^sup>2"
    by (intro power_strict_mono) simp_all
  also have "\<dots> = (cmod (a - b))\<^sup>2 / 2" by (simp add: power_mult_distrib power_divide)
  finally show False using c by simp
qed

lemma roots_interval_disjoint:
  assumes res: "roots_interval fuel N f x0 = Some (Inr m)"
    and dist: "distinct (roots N (subs_x f x0))"
    and cf: "\<forall>prec. \<forall>a \<in> set (roots N (subs_x f x0)). \<forall>b \<in> set (roots N (subs_x f x0)).
               a \<noteq> b \<longrightarrow> cmod (CF N prec a - CF N prec b) < sqrt 2 * cmod (a - b)"
    and e1: "(k1, b1) \<in> set m" and e2: "(k2, b2) \<in> set m" and ne: "k1 \<noteq> k2"
  shows "\<not> overlaps b1 b2"
proof
  assume ov: "overlaps b1 b2"
  let ?rts = "roots N (subs_x f x0)"
  let ?fx = "subs_x f x0"
  from res have all: "isolate_all fuel N ?fx ?rts [0 ..< length ?rts] [] = Some (Inr m)"
    by (simp add: roots_interval_def Let_def)
  from isolate_all_entries [OF all e1] obtain i1 where i1: "i1 < length ?rts"
    "isolate_root fuel N ?fx ?rts i1 = Some (Inr (k1, b1))" by auto
  from isolate_all_entries [OF all e2] obtain i2 where i2: "i2 < length ?rts"
    "isolate_root fuel N ?fx ?rts i2 = Some (Inr (k2, b2))" by auto
  from i1(2) i2(2) ne have neq: "i1 \<noteq> i2" by auto
  with dist i1(1) i2(1) have rne: "?rts ! i1 \<noteq> ?rts ! i2" by (simp add: nth_eq_iff_index_eq)
  from isolate_root_shape [OF i1(2)] obtain q1 d1 where s1: "b1 = envelop_at (?rts ! i1) d1"
    "0 \<le> d1" "\<forall>j < length ?rts. j \<noteq> i1 \<longrightarrow> d1 \<le> cmod (CF N q1 (?rts ! i1) - CF N q1 (?rts ! j)) / 4"
    by blast
  from isolate_root_shape [OF i2(2)] obtain q2 d2 where s2: "b2 = envelop_at (?rts ! i2) d2"
    "0 \<le> d2" "\<forall>j < length ?rts. j \<noteq> i2 \<longrightarrow> d2 \<le> cmod (CF N q2 (?rts ! i2) - CF N q2 (?rts ! j)) / 4"
    by blast
  from i1(1) i2(1) have mem: "?rts ! i1 \<in> set ?rts" "?rts ! i2 \<in> set ?rts" by simp_all
  from s1(3) i2(1) neq have "d1 \<le> cmod (CF N q1 (?rts ! i1) - CF N q1 (?rts ! i2)) / 4" by simp
  also from cf mem rne have "\<dots> < sqrt 2 * cmod (?rts ! i1 - ?rts ! i2) / 4" by simp
  finally have b1: "d1 < sqrt 2 * cmod (?rts ! i1 - ?rts ! i2) / 4" .
  from s2(3) i1(1) neq have "d2 \<le> cmod (CF N q2 (?rts ! i2) - CF N q2 (?rts ! i1)) / 4" by simp
  also from cf mem rne have "\<dots> < sqrt 2 * cmod (?rts ! i2 - ?rts ! i1) / 4"
    by (metis divide_strict_right_mono zero_less_numeral)
  finally have "d2 < sqrt 2 * cmod (?rts ! i2 - ?rts ! i1) / 4" .
  then have b2: "d2 < sqrt 2 * cmod (?rts ! i1 - ?rts ! i2) / 4" by (simp add: norm_minus_commute)
  from squares_apart [OF _ s1(2) b1 s2(2) b2] ov s1(1) s2(1) show False by simp
qed

lemma combinations2_nth:
  "(a, b) \<in> set (combinations2 xs) \<longleftrightarrow> (\<exists>i j. i < j \<and> j < length xs \<and> a = xs ! i \<and> b = xs ! j)"
proof (induction xs)
  case Nil
  then show ?case by simp
next
  case (Cons x xs)
  show ?case
  proof
    assume "(a, b) \<in> set (combinations2 (x # xs))"
    then consider "a = x" "b \<in> set xs" | "(a, b) \<in> set (combinations2 xs)" by auto
    then show "\<exists>i j. i < j \<and> j < length (x # xs) \<and> a = (x # xs) ! i \<and> b = (x # xs) ! j"
    proof cases
      case 1
      then obtain j where "j < length xs" "b = xs ! j" by (auto simp: in_set_conv_nth)
      with 1 show ?thesis by (intro exI [of _ 0] exI [of _ "Suc j"]) simp
    next
      case 2
      with Cons.IH obtain i j where "i < j" "j < length xs" "a = xs ! i" "b = xs ! j" by blast
      then show ?thesis by (intro exI [of _ "Suc i"] exI [of _ "Suc j"]) simp
    qed
  next
    assume "\<exists>i j. i < j \<and> j < length (x # xs) \<and> a = (x # xs) ! i \<and> b = (x # xs) ! j"
    then obtain i j where ij: "i < j" "j < length (x # xs)" "a = (x # xs) ! i" "b = (x # xs) ! j"
      by blast
    from ij(1) obtain j' where j': "j = Suc j'" by (cases j) auto
    show "(a, b) \<in> set (combinations2 (x # xs))"
    proof (cases i)
      case 0
      with ij j' show ?thesis by auto
    next
      case (Suc i')
      with ij j' have "i' < j'" "j' < length xs" "a = xs ! i'" "b = xs ! j'" by auto
      with Cons.IH have "(a, b) \<in> set (combinations2 xs)" by blast
      then show ?thesis by simp
    qed
  qed
qed

lemma separate_loop_result:
  "separate_loop fuel interval y0sf prec = Some (q, ivs) \<Longrightarrow>
   ivs = map (interval q) y0sf \<and>
   (\<forall>i j. i < j \<and> j < length ivs \<longrightarrow> \<not> overlaps (ivs ! i) (ivs ! j))"
proof (induction fuel arbitrary: prec)
  case 0
  then show ?case by simp
next
  case (Suc fuel)
  show ?case
  proof (cases "list_ex (\<lambda>(a, b). overlaps a b) (combinations2 (map (interval prec) y0sf))")
    case True
    with Suc.prems have "separate_loop fuel interval y0sf (prec * 2) = Some (q, ivs)"
      by (simp add: Let_def)
    from Suc.IH [OF this] show ?thesis .
  next
    case False
    with Suc.prems have eq: "q = prec" "ivs = map (interval prec) y0sf" by (auto simp: Let_def)
    from False eq have "\<forall>(a, b) \<in> set (combinations2 ivs). \<not> overlaps a b"
      by (auto simp: list_ex_iff)
    then have "\<forall>i j. i < j \<and> j < length ivs \<longrightarrow> \<not> overlaps (ivs ! i) (ivs ! j)"
      using combinations2_nth [of _ _ ivs] by blast
    with eq show ?thesis by simp
  qed
qed

lemma fiber_intervals_entries:
  "fiber_intervals fuel N interval X0 g table = Some table' \<Longrightarrow> (f, q, ivs) \<in> set table' \<Longrightarrow>
   (f, q, ivs) \<in> set table \<or>
   (\<exists>naux. (f, naux) \<in> set g \<and> separate_loop fuel interval (roots N (subs_x f X0)) 53 = Some (q, ivs))"
proof (induction g arbitrary: table)
  case Nil
  then show ?case by simp
next
  case (Cons fn g)
  obtain f' naux where fn: "fn = (f', naux)" by (cases fn)
  from Cons.prems(1) fn obtain entry where
    e: "separate_loop fuel interval (roots N (subs_x f' X0)) 53 = Some entry"
    and rest: "fiber_intervals fuel N interval X0 g (AList.update f' entry table) = Some table'"
    by (auto simp: Let_def split: option.splits)
  from Cons.IH [OF rest Cons.prems(2)] consider
    "(f, q, ivs) \<in> set (AList.update f' entry table)"
    | "\<exists>naux. (f, naux) \<in> set g \<and>
         separate_loop fuel interval (roots N (subs_x f X0)) 53 = Some (q, ivs)" by blast
  then show ?case
  proof cases
    case 1
    with set_update_subset [of f' entry table] have "(f, q, ivs) = (f', entry) \<or> (f, q, ivs) \<in> set table"
      by auto
    with e fn show ?thesis by auto
  next
    case 2
    then show ?thesis by auto
  qed
qed

subsection \<open>Matching the strands with the interval maps\<close>

lemma match_strand_Inr:
  assumes "match_strand I F cs = Inr r"
  shows "cs \<noteq> [] \<and> length (matching I (initial_point cs)) = 1 \<and>
         length (matching F (final_point cs)) = 1"
  using assms
  by (auto simp: match_strand_def Let_def split: if_splits)
     (metis One_nat_def Suc_lessI length_greater_0_conv)+

lemma match_strand_unable:
  assumes "cs \<noteq> []"
    and "matching I (initial_point cs) = [] \<or>
         (length (matching I (initial_point cs)) = 1 \<and> matching F (final_point cs) = [])"
  shows "match_strand I F cs = Inl (ValueError ''unable to match braid endpoint with root'')"
  using assms by (auto simp: match_strand_def Let_def)

lemma match_strand_more:
  assumes "cs \<noteq> []"
    and "length (matching I (initial_point cs)) > 1 \<or>
         (length (matching I (initial_point cs)) = 1 \<and> length (matching F (final_point cs)) > 1)"
  shows "match_strand I F cs = Inl (ValueError ''braid endpoint mathes more than one root'')"
  using assms by (auto simp: match_strand_def Let_def)

lemma match_strands_Inr:
  "match_strands I F css a b = Inr r \<Longrightarrow>
   \<forall>cs \<in> set css. length (matching I (initial_point cs)) = 1 \<and>
                    length (matching F (final_point cs)) = 1"
proof (induction css arbitrary: a b)
  case Nil
  then show ?case by simp
next
  case (Cons cs css)
  from Cons.prems obtain i f where m: "match_strand I F cs = Inr (i, f)"
    and rest: "match_strands I F css (a @ i) (b @ f) = Inr r"
    by (auto split: sum.splits)
  from match_strand_Inr [OF m] Cons.IH [OF rest] show ?case by simp
qed

lemma match_strands_mismatch:
  assumes "\<forall>cs \<in> set css. cs \<noteq> []"
    and "\<exists>cs \<in> set css. length (matching I (initial_point cs)) \<noteq> 1 \<or>
                         length (matching F (final_point cs)) \<noteq> 1"
  shows "match_strands I F css a b = Inl (ValueError ''unable to match braid endpoint with root'') \<or>
         match_strands I F css a b = Inl (ValueError ''braid endpoint mathes more than one root'')"
  using assms
proof (induction css arbitrary: a b)
  case Nil
  then show ?case by simp
next
  case (Cons cs css)
  from Cons.prems(1) have ne: "cs \<noteq> []" by simp
  show ?case
  proof (cases "match_strand I F cs")
    case (Inl e)
    have "length (matching I (initial_point cs)) \<noteq> 1 \<or> length (matching F (final_point cs)) \<noteq> 1"
    proof (rule ccontr)
      assume "\<not> ?thesis"
      with ne have "\<exists>r. match_strand I F cs = Inr r"
        by (auto simp: match_strand_def Let_def)
      with Inl show False by simp
    qed
    then consider "matching I (initial_point cs) = []"
      | "length (matching I (initial_point cs)) > 1"
      | "length (matching I (initial_point cs)) = 1" "matching F (final_point cs) = []"
      | "length (matching I (initial_point cs)) = 1" "length (matching F (final_point cs)) > 1"
      by (metis One_nat_def Suc_lessI length_greater_0_conv)
    then show ?thesis
    proof cases
      case 1
      with match_strand_unable [OF ne, of I F] show ?thesis by simp
    next
      case 2
      with match_strand_more [OF ne, of I F] show ?thesis by simp
    next
      case 3
      with match_strand_unable [OF ne, of I F] show ?thesis by simp
    next
      case 4
      with match_strand_more [OF ne, of I F] show ?thesis by simp
    qed
  next
    case (Inr r)
    obtain i f where r: "r = (i, f)" by (cases r)
    from match_strand_Inr [of I F cs r] Inr Cons.prems(2)
    have "\<exists>cs \<in> set css. length (matching I (initial_point cs)) \<noteq> 1 \<or>
                          length (matching F (final_point cs)) \<noteq> 1"
      by auto
    with Cons.IH [of "a @ i" "b @ f"] Cons.prems(1) Inr r show ?thesis by simp
  qed
qed

lemma braid_in_segment_Inr:
  assumes "braid_in_segment fuel N interval S c g x0 x1 = Some (Inr (b, c'))"
  shows "\<exists>table css I c1 F.
           fiber_intervals fuel N interval x0 (gfactors g) [] = Some table \<and>
           segment_strands fuel S (gfactors g) table x0 x1 = Some (Inr css) \<and>
           roots_interval_cached fuel N c (gvalue g) x0 = Some (Inr (I, c1)) \<and>
           roots_interval_cached fuel N c1 (gvalue g) x1 = Some (Inr (F, c')) \<and>
           (\<forall>cs \<in> set css. length (matching I (initial_point cs)) = 1 \<and>
                            length (matching F (final_point cs)) = 1)"
proof -
  from assms obtain table where t: "fiber_intervals fuel N interval x0 (gfactors g) [] = Some table"
    by (auto simp: braid_in_segment_def split: option.splits)
  from assms t obtain css where s: "segment_strands fuel S (gfactors g) table x0 x1 = Some (Inr css)"
    by (auto simp: braid_in_segment_def split: option.splits sum.splits)
  from assms t s obtain cb where cb: "braid_from_piecewise css = Inr cb"
    by (auto simp: braid_in_segment_def split: option.splits sum.splits)
  from assms t s cb obtain I c1 where i: "roots_interval_cached fuel N c (gvalue g) x0 = Some (Inr (I, c1))"
    by (auto simp: braid_in_segment_def split: option.splits sum.splits)
  from assms t s cb i obtain F c2 where f: "roots_interval_cached fuel N c1 (gvalue g) x1 = Some (Inr (F, c2))"
    by (auto simp: braid_in_segment_def split: option.splits sum.splits)
  from assms t s cb i f obtain r where m: "match_strands I F css [] [] = Inr r" and c2: "c2 = c'"
    by (auto simp: braid_in_segment_def split: option.splits sum.splits)
  from match_strands_Inr [OF m] t s i f c2 show ?thesis by blast
qed

lemma braid_in_segment_mismatch:
  assumes "fiber_intervals fuel N interval x0 (gfactors g) [] = Some table"
    and "segment_strands fuel S (gfactors g) table x0 x1 = Some (Inr css)"
    and "braid_from_piecewise css = Inr centralbraid"
    and "roots_interval_cached fuel N c (gvalue g) x0 = Some (Inr (I, c1))"
    and "roots_interval_cached fuel N c1 (gvalue g) x1 = Some (Inr (F, c2))"
    and "\<forall>cs \<in> set css. cs \<noteq> []"
    and "\<exists>cs \<in> set css. length (matching I (initial_point cs)) \<noteq> 1 \<or>
                         length (matching F (final_point cs)) \<noteq> 1"
  shows "braid_in_segment fuel N interval S c g x0 x1
           = Some (Inl (ValueError ''unable to match braid endpoint with root'')) \<or>
         braid_in_segment fuel N interval S c g x0 x1
           = Some (Inl (ValueError ''braid endpoint mathes more than one root''))"
  using match_strands_mismatch [OF assms(6,7), of "[]" "[]"] assms(1-5)
  by (auto simp: braid_in_segment_def)

subsection \<open>Two worked segments\<close>

text \<open>
  The two lines \<open>y = 1\<close> and \<open>y = -1\<close> over the segment from 0 to 1, and the conic
  \<open>y^2 + 1\<close> with a continuation library whose paths start far from the roots.
\<close>

lemma y_minus_1_fiber: "subs_x y_minus_1 x = [- 1, 1]"
  by (simp add: y_minus_1_def subs_x_def degree_y_def max_nat_list_def upt_rec)
lemma y_plus_1_fiber: "subs_x y_plus_1 x = [1, 1]"
  by (simp add: y_plus_1_def subs_x_def degree_y_def max_nat_list_def upt_rec)
lemma y2_minus_1_fiber: "subs_x y2_minus_1 x = [- 1, 0, 1]"
  by (simp add: y2_minus_1_def subs_x_def degree_y_def max_nat_list_def upt_rec)
lemma y2_plus_1_fiber: "subs_x y2_plus_1 x = [1, 0, 1]"
  by (simp add: y2_plus_1_def subs_x_def degree_y_def max_nat_list_def upt_rec)
lemma y_minus_1_degree: "degree y_minus_1 = 1" by (simp add: y_minus_1_def degree_def max_nat_list_def)
lemma y_plus_1_degree: "degree y_plus_1 = 1" by (simp add: y_plus_1_def degree_def max_nat_list_def)
lemma y2_plus_1_degree: "degree y2_plus_1 = 2" by (simp add: y2_plus_1_def degree_def max_nat_list_def)
lemma lines_differ: "y_minus_1 \<noteq> y_plus_1" "y_plus_1 \<noteq> y_minus_1"
  by (simp_all add: y_minus_1_def y_plus_1_def)

lemma two_lines_value: "gvalue two_lines = y2_minus_1" by (simp add: two_lines_def)
lemma toy_roots_1: "toy_roots [- 1, 1] = [1]" by (simp add: toy_roots_def)
lemma toy_roots_2: "toy_roots [1, 1] = [- 1]" by (simp add: toy_roots_def)
lemma toy_roots_3: "toy_roots [- 1, 0, 1] = [- 1, 1]" by (simp add: toy_roots_def)
lemma toy_roots_4: "toy_roots [1, 0, 1] = [- \<i>, \<i>]" by (simp add: toy_roots_def)

lemma cell_1: "dyadic_interval 53 1 = \<lparr>re_lo = 1, re_hi = 3/2, im_lo = 0, im_hi = 1/2\<rparr>"
  by (simp add: dyadic_interval_def)
lemma cell_minus_1: "dyadic_interval 53 (- 1) = \<lparr>re_lo = - 1, re_hi = - (1/2), im_lo = 0, im_hi = 1/2\<rparr>"
  by (simp add: dyadic_interval_def)

lemma two_lines_fiber_intervals: "fiber_intervals (Suc fuel) (toy_numerics toy_roots 53) dyadic_interval 0 (gfactors two_lines) []
  = Some [(y_minus_1, 53, [\<lparr>re_lo = 1, re_hi = 3/2, im_lo = 0, im_hi = 1/2\<rparr>]),
          (y_plus_1, 53, [\<lparr>re_lo = - 1, re_hi = - (1/2), im_lo = 0, im_hi = 1/2\<rparr>])]"
  by (simp add: two_lines_def toy_numerics_def y_minus_1_fiber y_plus_1_fiber toy_roots_1 toy_roots_2 cell_1 cell_minus_1 lines_differ)

lemma float_round_1: "float_round 53 1 = 1" "float_round 53 (- 1) = - 1"
  by (simp_all add: float_round_def power_int_def power_divide)

lemma CF_round_1: "CF_round 53 1 = 1" "CF_round 53 (- 1) = - 1"
  by (simp_all add: CF_round_def float_round_1 float_round_def complex_eq_iff)

lemma y_minus_1_strand: "followstrand fuel (toy_sirocco None) y_minus_1 fs 0 1 y0a 53 = Some (Inr [(0, 1, 0), (1, 1, 0)])"
  by (subst followstrand.simps)
     (simp add: y_minus_1_degree followstrand_linear_def y_minus_1_fiber first_root_def
        toy_sirocco_def linear_CF_roots_def CF_round_1)
lemma y_plus_1_strand: "followstrand fuel (toy_sirocco None) y_plus_1 fs 0 1 y0a 53 = Some (Inr [(0, - 1, 0), (1, - 1, 0)])"
  by (subst followstrand.simps)
     (simp add: y_plus_1_degree followstrand_linear_def y_plus_1_fiber first_root_def
        toy_sirocco_def linear_CF_roots_def CF_round_1)

lemma two_lines_strands: "segment_strands (Suc fuel) (toy_sirocco None) (gfactors two_lines)
    [(y_minus_1, 53, [\<lparr>re_lo = 1, re_hi = 3/2, im_lo = 0, im_hi = 1/2\<rparr>]),
     (y_plus_1, 53, [\<lparr>re_lo = - 1, re_hi = - (1/2), im_lo = 0, im_hi = 1/2\<rparr>])] 0 1
   = Some (Inr [[(0, 1, 0), (1, 1, 0)], [(0, - 1, 0), (1, - 1, 0)]])"
  by (simp add: segment_strands_def two_lines_def lines_differ y_minus_1_strand y_plus_1_strand)

lemma two_lines_central: "braid_from_piecewise [[(0, 1, 0), (1, 1, 0)], [(0, - 1, 0), (1, - 1, 0::real)]]
   = Inr \<lparr>strands = 2, word = []\<rparr>"
  by code_simp

lemma y2_minus_1_intervals: "roots_interval (Suc fuel) (toy_numerics toy_roots 53) y2_minus_1 x
   = Some (Inr [(- 1, envelop_at (- 1) (1/2)), (1, envelop_at 1 (1/2))])"
  by (simp add: roots_interval_def y2_minus_1_fiber toy_numerics_def toy_roots_3 isolate_root_def diam_of_def
      upt_rec contains_def envelop_at_def)

lemma two_lines_cached_0: "roots_interval_cached (Suc fuel) (toy_numerics toy_roots 53) [] y2_minus_1 0
   = Some (Inr ([(- 1, envelop_at (- 1) (1/2)), (1, envelop_at 1 (1/2))],
                [((y2_minus_1, 0), [(- 1, envelop_at (- 1) (1/2)), (1, envelop_at 1 (1/2))])]))"
  by (simp add: roots_interval_cached_def y2_minus_1_intervals)

lemma two_lines_cached_1: "roots_interval_cached (Suc fuel) (toy_numerics toy_roots 53)
     [((y2_minus_1, 0), [(- 1, envelop_at (- 1) (1/2)), (1, envelop_at 1 (1/2))])] y2_minus_1 1
   = Some (Inr ([(- 1, envelop_at (- 1) (1/2)), (1, envelop_at 1 (1/2))],
                [((y2_minus_1, 0), [(- 1, envelop_at (- 1) (1/2)), (1, envelop_at 1 (1/2))]),
                 ((y2_minus_1, 1), [(- 1, envelop_at (- 1) (1/2)), (1, envelop_at 1 (1/2))])]))"
  by (simp add: roots_interval_cached_def y2_minus_1_intervals)

lemma two_lines_matching: "match_strands [(- 1, envelop_at (- 1) (1/2)), (1, envelop_at 1 (1/2))]
     [(- 1, envelop_at (- 1) (1/2)), (1, envelop_at 1 (1/2))]
     [[(0, 1, 0), (1, 1, 0)], [(0, - 1, 0), (1, - 1, 0)]] [] []
   = Inr ([[(0, 1, 0), (1, 1, 0)], [(0, - 1, 0), (1, - 1, 0)]],
          [[(0, 1, 0), (1, 1, 0)], [(0, - 1, 0), (1, - 1, 0)]])"
  by (simp add: match_strand_def matching_def initial_point_def final_point_def
      contains_def envelop_at_def Let_def)

lemma two_lines_braid: "braid_in_segment (Suc fuel) (toy_numerics toy_roots 53) dyadic_interval (toy_sirocco None) []
     two_lines 0 1
   = Some (Inr (\<lparr>strands = 2, word = []\<rparr>,
        [((y2_minus_1, 0), [(- 1, envelop_at (- 1) (1/2)), (1, envelop_at 1 (1/2))]),
         ((y2_minus_1, 1), [(- 1, envelop_at (- 1) (1/2)), (1, envelop_at 1 (1/2))])]))"
  by (simp add: braid_in_segment_def two_lines_fiber_intervals two_lines_strands two_lines_central two_lines_cached_0 two_lines_cached_1 two_lines_matching braid_mult_def two_lines_value
      del: match_strands.simps)

lemma conic_parts: "gvalue conic = y2_plus_1" "gfactors conic = [(y2_plus_1, 1)]"
  by (simp_all add: conic_def)

lemma cell_i: "dyadic_interval 53 \<i> = \<lparr>re_lo = 0, re_hi = 1/2, im_lo = 1, im_hi = 3/2\<rparr>"
  by (simp add: dyadic_interval_def)
lemma cell_minus_i: "dyadic_interval 53 (- \<i>) = \<lparr>re_lo = 0, re_hi = 1/2, im_lo = - 1, im_hi = - (1/2)\<rparr>"
  by (simp add: dyadic_interval_def)

lemma conic_fiber_intervals: "fiber_intervals (Suc fuel) (toy_numerics toy_roots 53) dyadic_interval 0 (gfactors conic) []
  = Some [(y2_plus_1, 53, [\<lparr>re_lo = 0, re_hi = 1/2, im_lo = - 1, im_hi = - (1/2)\<rparr>,
                           \<lparr>re_lo = 0, re_hi = 1/2, im_lo = 1, im_hi = 3/2\<rparr>])]"
  by (simp add: conic_parts toy_numerics_def y2_plus_1_fiber toy_roots_4 cell_i cell_minus_i overlaps_def)

lemma conic_strand: "followstrand (Suc fuel) (toy_sirocco (Some p)) y2_plus_1 [] 0 1 y0a 53 = Some (Inr p)"
  by (rule followstrand_first_answer) (simp add: y2_plus_1_degree)

lemma conic_strands: "segment_strands (Suc fuel) (toy_sirocco (Some [(0, 5, 0), (1, 5, 0)])) (gfactors conic)
    [(y2_plus_1, 53, [\<lparr>re_lo = 0, re_hi = 1/2, im_lo = - 1, im_hi = - (1/2)\<rparr>,
                      \<lparr>re_lo = 0, re_hi = 1/2, im_lo = 1, im_hi = 3/2\<rparr>])] 0 1
   = Some (Inr [[(0, 5, 0), (1, 5, 0)], [(0, 5, 0), (1, 5, 0)]])"
  by (simp add: segment_strands_def conic_parts conic_strand)

lemma conic_central: "braid_from_piecewise [[(0, 5, 0), (1, 5, 0)], [(0, 5, 0), (1, 5, 0::real)]]
   = Inr \<lparr>strands = 2, word = []\<rparr>"
  by code_simp

lemma y2_plus_1_intervals: "roots_interval (Suc fuel) (toy_numerics toy_roots 53) y2_plus_1 x
   = Some (Inr [(- \<i>, envelop_at (- \<i>) (1/2)), (\<i>, envelop_at \<i> (1/2))])"
  by (simp add: roots_interval_def y2_plus_1_fiber toy_numerics_def toy_roots_4 isolate_root_def diam_of_def
      upt_rec contains_def envelop_at_def)

lemma conic_cached_0: "roots_interval_cached (Suc fuel) (toy_numerics toy_roots 53) [] y2_plus_1 0
   = Some (Inr ([(- \<i>, envelop_at (- \<i>) (1/2)), (\<i>, envelop_at \<i> (1/2))],
                [((y2_plus_1, 0), [(- \<i>, envelop_at (- \<i>) (1/2)), (\<i>, envelop_at \<i> (1/2))])]))"
  by (simp add: roots_interval_cached_def y2_plus_1_intervals)

lemma conic_cached_1: "roots_interval_cached (Suc fuel) (toy_numerics toy_roots 53)
     [((y2_plus_1, 0), [(- \<i>, envelop_at (- \<i>) (1/2)), (\<i>, envelop_at \<i> (1/2))])] y2_plus_1 1
   = Some (Inr ([(- \<i>, envelop_at (- \<i>) (1/2)), (\<i>, envelop_at \<i> (1/2))],
                [((y2_plus_1, 0), [(- \<i>, envelop_at (- \<i>) (1/2)), (\<i>, envelop_at \<i> (1/2))]),
                 ((y2_plus_1, 1), [(- \<i>, envelop_at (- \<i>) (1/2)), (\<i>, envelop_at \<i> (1/2))])]))"
  by (simp add: roots_interval_cached_def y2_plus_1_intervals)

lemma conic_no_match: "matching [(- \<i>, envelop_at (- \<i>) (1/2)), (\<i>, envelop_at \<i> (1/2))]
    (initial_point [(0, 5, 0), (1, 5, 0)]) = []"
  by (simp add: matching_def initial_point_def contains_def envelop_at_def)

lemma conic_braid_raises: "braid_in_segment (Suc fuel) (toy_numerics toy_roots 53) dyadic_interval
     (toy_sirocco (Some [(0, 5, 0), (1, 5, 0)])) [] conic 0 1
   = Some (Inl (ValueError ''unable to match braid endpoint with root''))"
  by (simp add: braid_in_segment_def conic_fiber_intervals conic_strands conic_central conic_cached_0 conic_cached_1 conic_parts(1) match_strand_def conic_no_match Let_def)

text \<open>
  The precision loop of \<^verbatim>\<open>braid_in_segment\<close> runs factor by factor. The factors
  \<open>y - 1\<close> and \<open>y - (1 + 2^-60)\<close> have one root each, so both loops exit at 53 bits;
  the intervals of the two roots at 53 bits are \<open>[1, 1]\<close> and \<open>[1, 1 + 2^-52]\<close>, which
  overlap.
\<close>

lemma floor_log2_near_1: "\<lfloor>log 2 (1 + 1 / 2 ^ 60)\<rfloor> = 0"
  by (simp add: floor_log_eq_powr_iff)

lemma CIF_interval_1: "CIF_interval 53 1 = \<lparr>re_lo = 1, re_hi = 1, im_lo = 0, im_hi = 0\<rparr>"
  by (simp add: CIF_interval_def float_down_def float_up_def power_int_def power_divide)

lemma CIF_interval_near_1:
  "CIF_interval 53 near_1 = \<lparr>re_lo = 1, re_hi = 1 + 1 / 2 ^ 52, im_lo = 0, im_hi = 0\<rparr>"
proof -
  have re: "Re near_1 = 1 + 1 / 2 ^ 60" by (simp add: near_1_def)
  have im: "Im near_1 = 0" by (simp add: near_1_def)
  have a: "\<bar>1 + 1 / 2 ^ 60 :: real\<bar> = 1 + 1 / 2 ^ 60" by simp
  have d: "float_down 53 (1 + 1 / 2 ^ 60) = 1"
    unfolding float_down_def a floor_log2_near_1
    by (simp add: power_int_def power_divide floor_eq_iff field_simps)
  have u: "float_up 53 (1 + 1 / 2 ^ 60) = 1 + 1 / 2 ^ 52"
    unfolding float_up_def a floor_log2_near_1
    by (simp add: power_int_def power_divide ceiling_eq_iff field_simps)
  show ?thesis unfolding CIF_interval_def re im d u by (simp add: float_down_def float_up_def)
qed

lemma near_lines_fiber_intervals:
  "fiber_intervals (Suc fuel) (toy_numerics toy_roots 53) CIF_interval 0 (gfactors near_lines) []
   = Some [(y_minus_1, 53, [\<lparr>re_lo = 1, re_hi = 1, im_lo = 0, im_hi = 0\<rparr>]),
           (y_minus_near_1, 53, [\<lparr>re_lo = 1, re_hi = 1 + 1 / 2 ^ 52, im_lo = 0, im_hi = 0\<rparr>])]"
proof -
  have f2: "subs_x y_minus_near_1 0 = [- near_1, 1]"
    by (simp add: y_minus_near_1_def subs_x_def degree_y_def max_nat_list_def upt_rec)
  have r2: "toy_roots [- near_1, 1] = [near_1]" by (simp add: toy_roots_def)
  have "near_1 \<noteq> 1" by (simp add: near_1_def)
  then have ne: "y_minus_1 \<noteq> y_minus_near_1" "y_minus_near_1 \<noteq> y_minus_1"
    by (simp_all add: y_minus_1_def y_minus_near_1_def)
  show ?thesis
    by (simp add: near_lines_def toy_numerics_def y_minus_1_fiber f2 toy_roots_1 r2
          CIF_interval_1 CIF_interval_near_1 ne)
qed

lemma intervals_of_two_factors_overlap:
  "fiber_intervals 1 (toy_numerics toy_roots 53) CIF_interval 0 (gfactors near_lines) []
     = Some [(y_minus_1, 53, [\<lparr>re_lo = 1, re_hi = 1, im_lo = 0, im_hi = 0\<rparr>]),
             (y_minus_near_1, 53, [\<lparr>re_lo = 1, re_hi = 1 + 1 / 2 ^ 52, im_lo = 0, im_hi = 0\<rparr>])] \<and>
   overlaps \<lparr>re_lo = 1, re_hi = 1, im_lo = 0, im_hi = 0\<rparr>
            \<lparr>re_lo = 1, re_hi = 1 + 1 / 2 ^ 52, im_lo = 0, im_hi = 0\<rparr>"
  using near_lines_fiber_intervals [of 0] by (simp add: overlaps_def)

lemma conic_fiber_intervals_1:
  "fiber_intervals 1 (toy_numerics toy_roots 53) dyadic_interval 0 (gfactors conic) []
     = Some [(y2_plus_1, 53, [\<lparr>re_lo = 0, re_hi = 1/2, im_lo = - 1, im_hi = - (1/2)\<rparr>,
                              \<lparr>re_lo = 0, re_hi = 1/2, im_lo = 1, im_hi = 3/2\<rparr>])]"
  using conic_fiber_intervals [of 0] by simp

text \<open>
  Claim C7. When \<^verbatim>\<open>braid_in_segment\<close> returns a braid, every continuation strand has
  exactly one interval of the map at \<open>x0\<close> containing its initial endpoint and exactly
  one interval of the map at \<open>x1\<close> containing its final endpoint. When the earlier
  stages succeed and some strand does not, the call ends in one of the two
  \<^verbatim>\<open>ValueError\<close>s instead of returning a braid; for a single strand, no match raises
  "unable to match" and several matches raise "mathes more than one root" (the spelling
  of the source).
\<close>

theorem braid_in_segment_endpoint_matching:
  "(braid_in_segment fuel N interval S c g x0 x1 = Some (Inr (b, c')) \<longrightarrow>
      (\<exists>table css I c1 F.
         fiber_intervals fuel N interval x0 (gfactors g) [] = Some table \<and>
         segment_strands fuel S (gfactors g) table x0 x1 = Some (Inr css) \<and>
         roots_interval_cached fuel N c (gvalue g) x0 = Some (Inr (I, c1)) \<and>
         roots_interval_cached fuel N c1 (gvalue g) x1 = Some (Inr (F, c')) \<and>
         (\<forall>cs \<in> set css. length (matching I (initial_point cs)) = 1 \<and>
                          length (matching F (final_point cs)) = 1))) \<and>
   (fiber_intervals fuel N interval x0 (gfactors g) [] = Some table' \<longrightarrow>
    segment_strands fuel S (gfactors g) table' x0 x1 = Some (Inr css') \<longrightarrow>
    braid_from_piecewise css' = Inr centralbraid \<longrightarrow>
    roots_interval_cached fuel N c (gvalue g) x0 = Some (Inr (I', c1')) \<longrightarrow>
    roots_interval_cached fuel N c1' (gvalue g) x1 = Some (Inr (F', c2')) \<longrightarrow>
    (\<forall>cs \<in> set css'. cs \<noteq> []) \<longrightarrow>
    (\<exists>cs \<in> set css'. length (matching I' (initial_point cs)) \<noteq> 1 \<or>
                       length (matching F' (final_point cs)) \<noteq> 1) \<longrightarrow>
      braid_in_segment fuel N interval S c g x0 x1
        = Some (Inl (ValueError ''unable to match braid endpoint with root'')) \<or>
      braid_in_segment fuel N interval S c g x0 x1
        = Some (Inl (ValueError ''braid endpoint mathes more than one root''))) \<and>
   (cs0 \<noteq> [] \<longrightarrow>
    (matching I0 (initial_point cs0) = [] \<or>
     (length (matching I0 (initial_point cs0)) = 1 \<and> matching F0 (final_point cs0) = [])) \<longrightarrow>
      match_strand I0 F0 cs0 = Inl (ValueError ''unable to match braid endpoint with root'')) \<and>
   (cs0 \<noteq> [] \<longrightarrow>
    (length (matching I0 (initial_point cs0)) > 1 \<or>
     (length (matching I0 (initial_point cs0)) = 1 \<and> length (matching F0 (final_point cs0)) > 1)) \<longrightarrow>
      match_strand I0 F0 cs0 = Inl (ValueError ''braid endpoint mathes more than one root''))"
proof (intro conjI impI)
  assume "braid_in_segment fuel N interval S c g x0 x1 = Some (Inr (b, c'))"
  then show "\<exists>table css I c1 F.
         fiber_intervals fuel N interval x0 (gfactors g) [] = Some table \<and>
         segment_strands fuel S (gfactors g) table x0 x1 = Some (Inr css) \<and>
         roots_interval_cached fuel N c (gvalue g) x0 = Some (Inr (I, c1)) \<and>
         roots_interval_cached fuel N c1 (gvalue g) x1 = Some (Inr (F, c')) \<and>
         (\<forall>cs \<in> set css. length (matching I (initial_point cs)) = 1 \<and>
                          length (matching F (final_point cs)) = 1)"
    by (rule braid_in_segment_Inr)
next
  assume "fiber_intervals fuel N interval x0 (gfactors g) [] = Some table'"
    "segment_strands fuel S (gfactors g) table' x0 x1 = Some (Inr css')"
    "braid_from_piecewise css' = Inr centralbraid"
    "roots_interval_cached fuel N c (gvalue g) x0 = Some (Inr (I', c1'))"
    "roots_interval_cached fuel N c1' (gvalue g) x1 = Some (Inr (F', c2'))"
    "\<forall>cs \<in> set css'. cs \<noteq> []"
    "\<exists>cs \<in> set css'. length (matching I' (initial_point cs)) \<noteq> 1 \<or>
                       length (matching F' (final_point cs)) \<noteq> 1"
  then show "braid_in_segment fuel N interval S c g x0 x1
        = Some (Inl (ValueError ''unable to match braid endpoint with root'')) \<or>
      braid_in_segment fuel N interval S c g x0 x1
        = Some (Inl (ValueError ''braid endpoint mathes more than one root''))"
    by (rule braid_in_segment_mismatch)
next
  assume "cs0 \<noteq> []"
    "matching I0 (initial_point cs0) = [] \<or>
     (length (matching I0 (initial_point cs0)) = 1 \<and> matching F0 (final_point cs0) = [])"
  then show "match_strand I0 F0 cs0 = Inl (ValueError ''unable to match braid endpoint with root'')"
    by (rule match_strand_unable)
next
  assume "cs0 \<noteq> []"
    "length (matching I0 (initial_point cs0)) > 1 \<or>
     (length (matching I0 (initial_point cs0)) = 1 \<and> length (matching F0 (final_point cs0)) > 1)"
  then show "match_strand I0 F0 cs0 = Inl (ValueError ''braid endpoint mathes more than one root'')"
    by (rule match_strand_more)
qed

lemma two_matches:
  "length (matching [(- 1, envelop_at (- 1) 3), (1, envelop_at 1 (1/2))]
             (initial_point [(0, 1, 0), (1, 1, 0)])) = 2"
  by (simp add: matching_def initial_point_def contains_def envelop_at_def)

theorem braid_in_segment_endpoint_matching_witness:
  "braid_in_segment 1 (toy_numerics toy_roots 53) dyadic_interval (toy_sirocco None) []
     two_lines 0 1
   = Some (Inr (\<lparr>strands = 2, word = []\<rparr>,
        [((y2_minus_1, 0), [(- 1, envelop_at (- 1) (1/2)), (1, envelop_at 1 (1/2))]),
         ((y2_minus_1, 1), [(- 1, envelop_at (- 1) (1/2)), (1, envelop_at 1 (1/2))])])) \<and>
   (\<exists>table css I c1 F.
      fiber_intervals 1 (toy_numerics toy_roots 53) dyadic_interval 0 (gfactors two_lines) []
        = Some table \<and>
      segment_strands 1 (toy_sirocco None) (gfactors two_lines) table 0 1 = Some (Inr css) \<and>
      roots_interval_cached 1 (toy_numerics toy_roots 53) [] (gvalue two_lines) 0
        = Some (Inr (I, c1)) \<and>
      roots_interval_cached 1 (toy_numerics toy_roots 53) c1 (gvalue two_lines) 1
        = Some (Inr (F, [((y2_minus_1, 0), [(- 1, envelop_at (- 1) (1/2)), (1, envelop_at 1 (1/2))]),
                         ((y2_minus_1, 1), [(- 1, envelop_at (- 1) (1/2)), (1, envelop_at 1 (1/2))])])) \<and>
      (\<forall>cs \<in> set css. length (matching I (initial_point cs)) = 1 \<and>
                       length (matching F (final_point cs)) = 1)) \<and>
   segment_strands 1 (toy_sirocco (Some [(0, 5, 0), (1, 5, 0)])) (gfactors conic)
       [(y2_plus_1, 53, [\<lparr>re_lo = 0, re_hi = 1/2, im_lo = - 1, im_hi = - (1/2)\<rparr>,
                         \<lparr>re_lo = 0, re_hi = 1/2, im_lo = 1, im_hi = 3/2\<rparr>])] 0 1
     = Some (Inr [[(0, 5, 0), (1, 5, 0)], [(0, 5, 0), (1, 5, 0)]]) \<and>
   matching [(- \<i>, envelop_at (- \<i>) (1/2)), (\<i>, envelop_at \<i> (1/2))]
     (initial_point [(0, 5, 0), (1, 5, 0)]) = [] \<and>
   (braid_in_segment 1 (toy_numerics toy_roots 53) dyadic_interval
        (toy_sirocco (Some [(0, 5, 0), (1, 5, 0)])) [] conic 0 1
      = Some (Inl (ValueError ''unable to match braid endpoint with root'')) \<or>
    braid_in_segment 1 (toy_numerics toy_roots 53) dyadic_interval
        (toy_sirocco (Some [(0, 5, 0), (1, 5, 0)])) [] conic 0 1
      = Some (Inl (ValueError ''braid endpoint mathes more than one root''))) \<and>
   match_strand [(- \<i>, envelop_at (- \<i>) (1/2)), (\<i>, envelop_at \<i> (1/2))] []
       [(0, 5, 0), (1, 5, 0)]
     = Inl (ValueError ''unable to match braid endpoint with root'') \<and>
   match_strand [(- 1, envelop_at (- 1) 3), (1, envelop_at 1 (1/2))] [] [(0, 1, 0), (1, 1, 0)]
     = Inl (ValueError ''braid endpoint mathes more than one root'')"
proof -
  have one: "(1::nat) = Suc 0" by simp
  have ok: "braid_in_segment 1 (toy_numerics toy_roots 53) dyadic_interval (toy_sirocco None) []
     two_lines 0 1
   = Some (Inr (\<lparr>strands = 2, word = []\<rparr>,
        [((y2_minus_1, 0), [(- 1, envelop_at (- 1) (1/2)), (1, envelop_at 1 (1/2))]),
         ((y2_minus_1, 1), [(- 1, envelop_at (- 1) (1/2)), (1, envelop_at 1 (1/2))])]))"
    unfolding one by (rule two_lines_braid)
  note a = braid_in_segment_endpoint_matching [THEN conjunct1, rule_format, OF ok]
  have s: "segment_strands 1 (toy_sirocco (Some [(0, 5, 0), (1, 5, 0)])) (gfactors conic)
       [(y2_plus_1, 53, [\<lparr>re_lo = 0, re_hi = 1/2, im_lo = - 1, im_hi = - (1/2)\<rparr>,
                         \<lparr>re_lo = 0, re_hi = 1/2, im_lo = 1, im_hi = 3/2\<rparr>])] 0 1
     = Some (Inr [[(0, 5, 0), (1, 5, 0)], [(0, 5, 0), (1, 5, 0)]])"
    unfolding one by (rule conic_strands)
  have c0: "roots_interval_cached 1 (toy_numerics toy_roots 53) [] (gvalue conic) 0
   = Some (Inr ([(- \<i>, envelop_at (- \<i>) (1/2)), (\<i>, envelop_at \<i> (1/2))],
                [((y2_plus_1, 0), [(- \<i>, envelop_at (- \<i>) (1/2)), (\<i>, envelop_at \<i> (1/2))])]))"
    unfolding one conic_parts(1) by (rule conic_cached_0)
  have c1: "roots_interval_cached 1 (toy_numerics toy_roots 53)
     [((y2_plus_1, 0), [(- \<i>, envelop_at (- \<i>) (1/2)), (\<i>, envelop_at \<i> (1/2))])] (gvalue conic) 1
   = Some (Inr ([(- \<i>, envelop_at (- \<i>) (1/2)), (\<i>, envelop_at \<i> (1/2))],
                [((y2_plus_1, 0), [(- \<i>, envelop_at (- \<i>) (1/2)), (\<i>, envelop_at \<i> (1/2))]),
                 ((y2_plus_1, 1), [(- \<i>, envelop_at (- \<i>) (1/2)), (\<i>, envelop_at \<i> (1/2))])]))"
    unfolding one conic_parts(1) by (rule conic_cached_1)
  have ne: "\<forall>cs \<in> set ([[(0, 5, 0), (1, 5, 0)], [(0, 5, 0), (1, 5, 0)]] :: real sample list list).
      cs \<noteq> []" by simp
  have bad: "\<exists>cs \<in> set [[(0, 5, 0), (1, 5, 0)], [(0, 5, 0), (1, 5, 0)]].
      length (matching [(- \<i>, envelop_at (- \<i>) (1/2)), (\<i>, envelop_at \<i> (1/2))] (initial_point cs)) \<noteq> 1 \<or>
      length (matching [(- \<i>, envelop_at (- \<i>) (1/2)), (\<i>, envelop_at \<i> (1/2))] (final_point cs)) \<noteq> 1"
    by (simp add: conic_no_match)
  note b = braid_in_segment_endpoint_matching [THEN conjunct2, THEN conjunct1, rule_format,
      OF conic_fiber_intervals_1 s conic_central c0 c1 ne [rule_format] bad]
  have "([(0, 5, 0), (1, 5, 0)] :: real sample list) \<noteq> []" by simp
  note c = braid_in_segment_endpoint_matching [THEN conjunct2, THEN conjunct2, THEN conjunct1,
      rule_format, OF this disjI1 [OF conic_no_match], of "[]"]
  have "([(0, 1, 0), (1, 1, 0)] :: real sample list) \<noteq> []" by simp
  moreover have "1 < length (matching [(- 1, envelop_at (- 1) 3), (1, envelop_at 1 (1/2))]
             (initial_point [(0, 1, 0), (1, 1, 0)]))"
    by (simp add: two_matches)
  ultimately have d: "match_strand [(- 1, envelop_at (- 1) 3), (1, envelop_at 1 (1/2))] []
      [(0, 1, 0), (1, 1, 0)]
     = Inl (ValueError ''braid endpoint mathes more than one root'')"
    by (intro braid_in_segment_endpoint_matching [THEN conjunct2, THEN conjunct2, THEN conjunct2,
          rule_format] disjI1)
  from ok a s conic_no_match b c d show ?thesis by (intro conjI)
qed

end
